theory Spec2Isabelle
  imports Complex_Main "HOL-Library.Sublist"
begin

section \<open>The demo transpiler (docs/scripts/formattedTSDemos.js)\<close>

subsection \<open>Strings and paths\<close>

text \<open>
  JavaScript strings are modelled as \<^typ>\<open>string\<close>. The three string methods the
  script uses are \<open>endsWith\<close>, \<open>includes\<close> and \<open>replace\<close> with a string pattern,
  which replaces the first occurrence of the pattern only.
\<close>

type_synonym path = string

definition endsWith :: "string \<Rightarrow> string \<Rightarrow> bool" where
  "endsWith s searchString = suffix searchString s"

fun str_includes :: "string \<Rightarrow> string \<Rightarrow> bool" where
  "str_includes [] searchString = (searchString = [])"
| "str_includes (c # cs) searchString =
     (prefix searchString (c # cs) \<or> str_includes cs searchString)"

fun replace :: "string \<Rightarrow> string \<Rightarrow> string \<Rightarrow> string" where
  "replace [] pattern replacement = (if pattern = [] then replacement else [])"
| "replace (c # cs) pattern replacement =
     (if prefix pattern (c # cs) then replacement @ drop (length pattern) (c # cs)
      else c # replace cs pattern replacement)"

text \<open>
  \<open>path.join\<close> and \<open>path.normalize\<close> on a POSIX host. The script joins a normalised
  directory path (no trailing separator) with a plain name or a relative path, where
  \<open>path.join\<close> puts one separator between the two; and it normalises the one entry of
  \<open>ignoreList\<close>, which has nothing to normalise.
\<close>

definition path_join :: "path \<Rightarrow> path \<Rightarrow> path" where
  "path_join a b = a @ ''/'' @ b"

definition path_normalize :: "path \<Rightarrow> path" where
  "path_normalize p = p"

definition ignoreList :: "path list" where
  "ignoreList = [''/pages.ts'']"

subsection \<open>Errors\<close>

text \<open>
  A thrown value is a system error of the file system (Node words its message as
  \<open>CODE: description, syscall 'path'\<close>), an \<open>Error\<close> made with a message, or some
  other value that has no \<open>message\<close>.
\<close>

datatype errno = ENOENT | ENOTDIR | EISDIR | EACCES

datatype error = SystemError errno string path | Error string | ThrownValue

fun errno_text :: "errno \<Rightarrow> string" where
  "errno_text ENOENT = ''ENOENT: no such file or directory''"
| "errno_text ENOTDIR = ''ENOTDIR: not a directory''"
| "errno_text EISDIR = ''EISDIR: illegal operation on a directory''"
| "errno_text EACCES = ''EACCES: permission denied''"

fun message :: "error \<Rightarrow> string option" where
  "message (SystemError code syscall p) =
     Some (errno_text code @ '', '' @ syscall @ '' '' @ [CHR 0x27] @ p @ [CHR 0x27])"
| "message (Error m) = Some m"
| "message ThrownValue = None"

subsection \<open>The file system\<close>

text \<open>
  The files are an association list from paths to entries; the first pair of a path
  counts. Modification times are JavaScript numbers (milliseconds), compared with \<open>>\<close>
  only, so they are read as the real numbers they stand for.
\<close>

datatype entry =
    File (readable: bool) (content: string) (mtime: real)
  | Directory (readable: bool) (mtime: real)

type_synonym files = "(path \<times> entry) list"

record stats =
  isDirectory :: bool
  isFile :: bool
  mtimeMs :: real

definition fs_exists :: "files \<Rightarrow> path \<Rightarrow> bool" where
  "fs_exists fs p = (map_of fs p \<noteq> None)"

definition fs_stat :: "files \<Rightarrow> path \<Rightarrow> error + stats" where
  "fs_stat fs p =
     (case map_of fs p of
        None \<Rightarrow> Inl (SystemError ENOENT ''stat'' p)
      | Some (File r c t) \<Rightarrow> Inr \<lparr>isDirectory = False, isFile = True, mtimeMs = t\<rparr>
      | Some (Directory r t) \<Rightarrow> Inr \<lparr>isDirectory = True, isFile = False, mtimeMs = t\<rparr>)"

definition child_name :: "path \<Rightarrow> path \<Rightarrow> string list" where
  "child_name dir p =
     (let name = drop (length dir + 1) p
      in if take (length dir + 1) p = dir @ ''/'' \<and> name \<noteq> [] \<and> CHR ''/'' \<notin> set name
         then [name] else [])"

definition fs_readdir :: "files \<Rightarrow> path \<Rightarrow> error + string list" where
  "fs_readdir fs p =
     (case map_of fs p of
        None \<Rightarrow> Inl (SystemError ENOENT ''scandir'' p)
      | Some (File r c t) \<Rightarrow> Inl (SystemError ENOTDIR ''scandir'' p)
      | Some (Directory r t) \<Rightarrow>
          if r then Inr (remdups (concat (map (\<lambda>(q, e). child_name p q) fs)))
          else Inl (SystemError EACCES ''scandir'' p))"

definition fs_readFile :: "files \<Rightarrow> path \<Rightarrow> error + string" where
  "fs_readFile fs p =
     (case map_of fs p of
        None \<Rightarrow> Inl (SystemError ENOENT ''open'' p)
      | Some (Directory r t) \<Rightarrow> Inl (SystemError EISDIR ''read'' p)
      | Some (File r c t) \<Rightarrow> if r then Inr c else Inl (SystemError EACCES ''open'' p))"

definition dirname :: "path \<Rightarrow> path" where
  "dirname p = rev (drop 1 (dropWhile (\<lambda>c. c \<noteq> CHR ''/'') (rev p)))"

text \<open>
  \<open>writeFile\<close> creates or replaces the file in an existing directory and stamps it with
  the time \<open>now\<close>.
\<close>

definition fs_writeFile :: "files \<Rightarrow> real \<Rightarrow> path \<Rightarrow> string \<Rightarrow> error + files" where
  "fs_writeFile fs now p data =
     (case map_of fs p of
        Some (Directory r t) \<Rightarrow> Inl (SystemError EISDIR ''open'' p)
      | _ \<Rightarrow>
         (case map_of fs (dirname p) of
            None \<Rightarrow> Inl (SystemError ENOENT ''open'' p)
          | Some (File r c t) \<Rightarrow> Inl (SystemError ENOTDIR ''open'' p)
          | Some (Directory r t) \<Rightarrow> Inr ((p, File True data now) # fs)))"

subsection \<open>getFiles\<close>

text \<open>
  \<open>Promise.all\<close> over the callbacks of \<open>map\<close>: it rejects with the error of a rejected
  callback, here the first one in the order of the list, and otherwise gives every
  result. A callback's result is the list of paths it pushes onto \<open>files\<close>.
\<close>

fun Promise_all :: "(error + 'a) list \<Rightarrow> error + 'a list" where
  "Promise_all [] = Inr []"
| "Promise_all (Inl e # rs) = Inl e"
| "Promise_all (Inr x # rs) = (case Promise_all rs of Inl e \<Rightarrow> Inl e | Inr xs \<Rightarrow> Inr (x # xs))"

definition is_missing :: "error \<Rightarrow> bool" where
  "is_missing e =
     (case message e of None \<Rightarrow> False | Some m \<Rightarrow> str_includes m ''no such file or directory'')"

definition getFiles_catch :: "error \<Rightarrow> error + path list" where
  "getFiles_catch e = (if is_missing e then Inr [] else Inl e)"

definition longer_paths :: "files \<Rightarrow> path \<Rightarrow> nat" where
  "longer_paths fs rootDir = length (filter (\<lambda>(p, e). length rootDir < length p) fs)"

function getFiles :: "files \<Rightarrow> path \<Rightarrow> error + path list" where
  "getFiles fs rootDir =
     (case fs_readdir fs rootDir of
        Inl e \<Rightarrow> getFiles_catch e
      | Inr names \<Rightarrow>
         (case Promise_all (map (\<lambda>name.
                 let filePath = path_join rootDir name
                 in case fs_stat fs filePath of
                      Inl e \<Rightarrow> Inl e
                    | Inr stat \<Rightarrow>
                        if isDirectory stat then getFiles fs filePath
                        else if isFile stat \<and> endsWith filePath ''.tsx'' \<and>
                                \<not> list_ex (\<lambda>ignorePath.
                                     endsWith filePath (path_normalize ignorePath)) ignoreList
                        then Inr [filePath]
                        else Inr []) names) of
            Inl e \<Rightarrow> getFiles_catch e
          | Inr pushed \<Rightarrow> Inr (concat pushed)))"
  by pat_completeness auto

lemma stat_ok_in_files:
  assumes "fs_stat fs p = Inr st"
  shows "\<exists>e. (p, e) \<in> set fs"
proof (cases "map_of fs p")
  case None
  with assms show ?thesis by (simp add: fs_stat_def)
next
  case (Some e)
  then show ?thesis by (auto dest: map_of_SomeD)
qed

lemma longer_paths_decreases:
  assumes "(p, e) \<in> set fs" and "length rootDir < length p"
  shows "longer_paths fs p < longer_paths fs rootDir"
proof -
  let ?P = "\<lambda>(q, e :: entry). length rootDir < length q"
  let ?Q = "\<lambda>(q, e :: entry). length p < length q"
  have "filter ?Q fs = filter ?Q (filter ?P fs)"
    using assms(2) by (auto intro!: filter_cong)
  moreover have "(p, e) \<in> set (filter ?P fs)" and "\<not> ?Q (p, e)"
    using assms by auto
  then have "length (filter ?Q (filter ?P fs)) < length (filter ?P fs)"
    by (rule length_filter_less)
  ultimately show ?thesis by (simp add: longer_paths_def)
qed

termination getFiles
proof (relation "measure (\<lambda>(fs, rootDir). longer_paths fs rootDir)")
  show "wf (measure (\<lambda>(fs, rootDir). longer_paths fs rootDir))" by simp
next
  fix fs :: files and rootDir :: path and names name filePath stat
  assume "filePath = path_join rootDir name" and "fs_stat fs filePath = Inr stat"
  then obtain e where "(filePath, e) \<in> set fs" and "length rootDir < length filePath"
    using stat_ok_in_files [of fs filePath stat] by (auto simp: path_join_def)
  then show "((fs, filePath), (fs, rootDir)) \<in> measure (\<lambda>(fs, rootDir). longer_paths fs rootDir)"
    by (simp add: longer_paths_decreases)
qed

declare getFiles.simps [simp del]

text \<open>The callback that \<open>getFiles\<close> maps over the names, by name.\<close>

definition getFiles_callback :: "files \<Rightarrow> path \<Rightarrow> string \<Rightarrow> error + path list" where
  "getFiles_callback fs rootDir name =
     (let filePath = path_join rootDir name
      in case fs_stat fs filePath of
           Inl e \<Rightarrow> Inl e
         | Inr stat \<Rightarrow>
             if isDirectory stat then getFiles fs filePath
             else if isFile stat \<and> endsWith filePath ''.tsx'' \<and>
                     \<not> list_ex (\<lambda>ignorePath.
                          endsWith filePath (path_normalize ignorePath)) ignoreList
             then Inr [filePath]
             else Inr [])"

text \<open>
  \<open>walk fs dir names\<close>: going down from the directory \<open>dir\<close> along \<open>names\<close>, each
  name is listed in the directory reached so far, and each name but the last is a
  directory. \<open>is_regular_file\<close>: the path is that of a regular file.
\<close>

fun walk :: "files \<Rightarrow> path \<Rightarrow> string list \<Rightarrow> bool" where
  "walk fs dir [] = False"
| "walk fs dir (name # rest) =
     (case fs_readdir fs dir of
        Inl e \<Rightarrow> False
      | Inr names \<Rightarrow>
          name \<in> set names \<and>
          (rest = [] \<or>
           (case fs_stat fs (path_join dir name) of
              Inl e \<Rightarrow> False
            | Inr stat \<Rightarrow> isDirectory stat \<and> walk fs (path_join dir name) rest)))"

definition is_regular_file :: "files \<Rightarrow> path \<Rightarrow> bool" where
  "is_regular_file fs p = (case map_of fs p of Some (File r c t) \<Rightarrow> True | _ \<Rightarrow> False)"

subsection \<open>What the script binds at its top level\<close>

text \<open>
  Babel, typescript-to-proptypes, Prettier and the two functions of \<open>./helpers\<close> are
  not part of the script; they are taken as parameters, each of which may throw.
  \<open>createProgram\<close> stands for \<open>typescriptToProptypes.createProgram\<close> applied to the
  files and the \<open>tsConfig\<close> that the script loads. \<open>workspaceRoot\<close> is the directory
  two levels above the script.
\<close>

datatype plugin = Plugin string nat path

record transformOptions =
  presets :: "string list"
  plugins :: "plugin list"
  retainLines :: bool
  babelrc :: bool
  configFile :: bool
  filename :: "path option"

definition babelConfig :: transformOptions where
  "babelConfig =
     \<lparr>presets = [''@babel/preset-typescript''], plugins = [], retainLines = True,
      babelrc = False, configFile = False, filename = None\<rparr>"

record ('program, 'ast, 'config) modules =
  workspaceRoot :: path
  transformAsync :: "string \<Rightarrow> transformOptions \<Rightarrow> error + string"
  createProgram :: "path list \<Rightarrow> 'program"
  parseFromProgram :: "path \<Rightarrow> 'program \<Rightarrow> (string \<Rightarrow> bool option) \<Rightarrow> error + 'ast"
  inject :: "'ast \<Rightarrow> string \<Rightarrow> error + string"
  resolveConfig :: "path \<Rightarrow> path \<Rightarrow> error + 'config"
  format :: "string \<Rightarrow> 'config \<Rightarrow> path \<Rightarrow> error + string"
  fixBabelGeneratorIssues :: "string \<Rightarrow> error + string"
  fixLineEndings :: "string \<Rightarrow> string \<Rightarrow> error + string"

subsection \<open>The world and its effects\<close>

text \<open>
  An event is one call: of \<open>transpileFile\<close> for a path, of a function of \<open>fs-extra\<close>
  on a path, or of one of the tools. The trace of the world lists the calls in the order
  in which they were made.
\<close>

datatype event =
    Transpile path
  | Exists path
  | Stat path
  | ReadFile path
  | TransformAsync path
  | ParseFromProgram path
  | Inject
  | ResolveConfig path
  | Format
  | FixBabelGeneratorIssues
  | FixLineEndings
  | WriteFile path

datatype console_arg = Num nat | Str string | Err error

datatype printed = ConsoleLog string "console_arg list" | ConsoleError string "console_arg list"

text \<open>
  The world is the files, the time a write stamps a file with, the effects performed so
  far, what was printed, and the watchers registered with \<open>watchFile\<close> (path and
  interval).
\<close>

record world =
  files :: files
  now :: real
  trace :: "event list"
  console :: "printed list"
  watchers :: "(path \<times> nat) list"

type_synonym 'a io = "world \<Rightarrow> (error + 'a) \<times> world"

definition io_return :: "'a \<Rightarrow> 'a io" where
  "io_return x w = (Inr x, w)"

definition io_throw :: "error \<Rightarrow> 'a io" where
  "io_throw e w = (Inl e, w)"

definition io_bind :: "'a io \<Rightarrow> ('a \<Rightarrow> 'b io) \<Rightarrow> 'b io" where
  "io_bind m f w = (case m w of (Inl e, w') \<Rightarrow> (Inl e, w') | (Inr x, w') \<Rightarrow> f x w')"

definition io_call :: "event \<Rightarrow> error + 'a \<Rightarrow> 'a io" where
  "io_call ev r w = (r, w\<lparr>trace := trace w @ [ev]\<rparr>)"

text \<open>\<open>Promise.all\<close> of two calls: both are made, the first rejection wins.\<close>

definition io_both :: "'a io \<Rightarrow> 'b io \<Rightarrow> ('a \<times> 'b) io" where
  "io_both m1 m2 w =
     (case m1 w of (r1, w1) \<Rightarrow>
      case m2 w1 of (r2, w2) \<Rightarrow>
        (case r1 of Inl e \<Rightarrow> Inl e
         | Inr x \<Rightarrow> (case r2 of Inl e \<Rightarrow> Inl e | Inr y \<Rightarrow> Inr (x, y)), w2))"

definition io_exists :: "path \<Rightarrow> bool io" where
  "io_exists p w = io_call (Exists p) (Inr (fs_exists (files w) p)) w"

definition io_stat :: "path \<Rightarrow> stats io" where
  "io_stat p w = io_call (Stat p) (fs_stat (files w) p) w"

definition io_readFile :: "path \<Rightarrow> string io" where
  "io_readFile p w = io_call (ReadFile p) (fs_readFile (files w) p) w"

definition io_writeFile :: "path \<Rightarrow> string \<Rightarrow> unit io" where
  "io_writeFile p data w =
     (case fs_writeFile (files w) (now w) p data of
        Inl e \<Rightarrow> (Inl e, w\<lparr>trace := trace w @ [WriteFile p]\<rparr>)
      | Inr fs' \<Rightarrow> (Inr (), w\<lparr>files := fs', trace := trace w @ [WriteFile p]\<rparr>))"

fun is_Transpile :: "event \<Rightarrow> bool" where
  "is_Transpile (Transpile p) = True"
| "is_Transpile ev = False"

subsection \<open>transpileFile\<close>

definition TranspileResult_Success :: nat where "TranspileResult_Success = 0"
definition TranspileResult_Skipped :: nat where "TranspileResult_Skipped = 1"
definition TranspileResult_Failed :: nat where "TranspileResult_Failed = 2"

text \<open>
  The test \<open>/import \w* from 'prop-types'/.test(code)\<close>. After \<open>\w*\<close> the pattern
  goes on with a space, which is no word character, so a match at a position takes the
  whole run of word characters there.
\<close>

definition word_char :: "char \<Rightarrow> bool" where
  "word_char c =
     (c \<in> set ''abcdefghijklmnopqrstuvwxyzABCDEFGHIJKLMNOPQRSTUVWXYZ0123456789_'')"

definition propTypes_import_at :: "string \<Rightarrow> bool" where
  "propTypes_import_at s =
     (prefix ''import '' s \<and>
      prefix ('' from '' @ [CHR 0x27] @ ''prop-types'' @ [CHR 0x27])
        (dropWhile word_char (drop 7 s)))"

fun propTypes_import_test :: "string \<Rightarrow> bool" where
  "propTypes_import_test [] = propTypes_import_at []"
| "propTypes_import_test (c # cs) =
     (propTypes_import_at (c # cs) \<or> propTypes_import_test cs)"

definition propsToNotResolve :: "string list" where
  "propsToNotResolve =
     [''classes'', ''state'', ''currentColumn'', ''colDef'', ''row'', ''selectedDay'',
      ''day'', ''defaultValue'', ''value'']"

definition shouldResolveObject :: "string \<Rightarrow> bool option" where
  "shouldResolveObject name = (if name \<in> set propsToNotResolve then Some False else None)"

definition jsx_preview_plugin :: "path \<Rightarrow> plugin" where
  "jsx_preview_plugin tsxPath =
     Plugin ''docsx/src/modules/utils/babel-plugin-jsx-preview'' 16 (tsxPath @ ''.preview'')"

definition transformOptions_for :: "path \<Rightarrow> transformOptions" where
  "transformOptions_for tsxPath =
     (let transformOptions = babelConfig\<lparr>filename := Some tsxPath\<rparr>;
          enableJSXPreview = (\<not> str_includes tsxPath (path_join ''pages'' ''premium-themes''))
      in if enableJSXPreview
         then transformOptions\<lparr>plugins := plugins transformOptions @ [jsx_preview_plugin tsxPath]\<rparr>
         else transformOptions)"

text \<open>The body of the \<open>try\<close> block, from the read of the source on.\<close>

definition transpile_steps ::
  "('program, 'ast, 'config) modules \<Rightarrow> path \<Rightarrow> path \<Rightarrow> 'program \<Rightarrow> nat io" where
  "transpile_steps m tsxPath jsPath program =
     io_bind (io_readFile tsxPath) (\<lambda>source.
     io_bind (io_call (TransformAsync tsxPath)
                (transformAsync m source (transformOptions_for tsxPath))) (\<lambda>code.
     if propTypes_import_test code
     then io_throw (Error ''TypeScript demo contains prop-types, please remove them'')
     else
     io_bind (io_call (ParseFromProgram tsxPath)
                (parseFromProgram m tsxPath program shouldResolveObject)) (\<lambda>propTypesAST.
     io_bind (io_call Inject (inject m propTypesAST code)) (\<lambda>codeWithPropTypes.
     io_bind (io_call (ResolveConfig jsPath)
                (resolveConfig m jsPath
                   (path_join (workspaceRoot m) ''prettier.config.js''))) (\<lambda>prettierConfig.
     let prettierFormat = (\<lambda>jsSource. io_call Format (format m jsSource prettierConfig jsPath))
     in
     io_bind (prettierFormat codeWithPropTypes) (\<lambda>prettified.
     io_bind (io_call FixBabelGeneratorIssues (fixBabelGeneratorIssues m prettified)) (\<lambda>formatted.
     io_bind (io_call FixLineEndings (fixLineEndings m source formatted)) (\<lambda>correctedLineEndings.
     io_bind (prettierFormat correctedLineEndings) (\<lambda>data.
     io_bind (io_writeFile jsPath data) (\<lambda>_.
     io_return TranspileResult_Success))))))))))"

text \<open>The cache test at the head of the \<open>try\<close> block: is the JavaScript version newer?\<close>

definition js_is_newer :: "path \<Rightarrow> path \<Rightarrow> bool \<Rightarrow> bool io" where
  "js_is_newer tsxPath jsPath ignoreCache =
     (if ignoreCache then io_return False
      else io_bind (io_exists jsPath) (\<lambda>found.
           if found
           then io_bind (io_both (io_stat jsPath) (io_stat tsxPath)) (\<lambda>(jsStat, tsxStat).
                io_return (mtimeMs jsStat > mtimeMs tsxStat))
           else io_return False))"

definition transpileFile_try ::
  "('program, 'ast, 'config) modules \<Rightarrow> path \<Rightarrow> path \<Rightarrow> 'program \<Rightarrow> bool \<Rightarrow> nat io" where
  "transpileFile_try m tsxPath jsPath program ignoreCache =
     io_bind (js_is_newer tsxPath jsPath ignoreCache) (\<lambda>newer.
     if newer then io_return TranspileResult_Skipped
     else transpile_steps m tsxPath jsPath program)"

text \<open>\<open>tsxPath.replace('.tsx', '.js')\<close>, the path that \<open>transpileFile\<close> binds to \<open>jsPath\<close>.\<close>

definition jsPath_of :: "path \<Rightarrow> path" where
  "jsPath_of tsxPath = replace tsxPath ''.tsx'' ''.js''"

definition transpileFile ::
  "('program, 'ast, 'config) modules \<Rightarrow> path \<Rightarrow> 'program \<Rightarrow> bool \<Rightarrow> world \<Rightarrow> nat \<times> world" where
  "transpileFile m tsxPath program ignoreCache w =
     (let jsPath = jsPath_of tsxPath
      in case transpileFile_try m tsxPath jsPath program ignoreCache
                (w\<lparr>trace := trace w @ [Transpile tsxPath]\<rparr>) of
           (Inr result, w') \<Rightarrow> (result, w')
         | (Inl err, w') \<Rightarrow>
             (TranspileResult_Failed,
              w'\<lparr>console := console w' @
                 [ConsoleError ''Something went wrong transpiling %s\<newline>%s\<newline>''
                    [Str tsxPath, Err err]]\<rparr>))"

text \<open>
  The path of the output as the specification words it: the trailing \<open>.tsx\<close> extension
  of the path replaced by \<open>.js\<close>. It is compared with \<open>jsPath_of\<close> below.
\<close>

definition sibling_js_spec :: "path \<Rightarrow> path" where
  "sibling_js_spec p = (if endsWith p ''.tsx'' then take (length p - 4) p @ ''.js'' else p)"

subsection \<open>main\<close>

record argv =
  watch :: bool
  disableCache :: bool

text \<open>
  \<open>Promise.all(tsxFiles.map((file) => transpileFile(file, program, cacheDisabled)))\<close>:
  one call for each file, here one after the other in the order of the list, and the
  results in that order.
\<close>

fun transpileAll ::
  "('program, 'ast, 'config) modules \<Rightarrow> 'program \<Rightarrow> bool \<Rightarrow> path list \<Rightarrow> world
     \<Rightarrow> nat list \<times> world" where
  "transpileAll m program cacheDisabled [] w = ([], w)"
| "transpileAll m program cacheDisabled (file # tsxFiles) w =
     (case transpileFile m file program cacheDisabled w of (result, w1) \<Rightarrow>
      case transpileAll m program cacheDisabled tsxFiles w1 of (results, w2) \<Rightarrow>
        (result # results, w2))"

fun digits :: "nat \<Rightarrow> string" where
  "digits n =
     (if n < 10 then [char_of (48 + n)]
      else digits (n div 10) @ [char_of (48 + n mod 10)])"

text \<open>
  The \<open>forEach\<close> over the results with its \<open>switch\<close>; the counters are
  \<open>successful\<close>, \<open>failed\<close> and \<open>skipped\<close>, and the default branch throws.
\<close>

fun count_results :: "nat list \<Rightarrow> nat \<times> nat \<times> nat \<Rightarrow> error + nat \<times> nat \<times> nat" where
  "count_results [] counters = Inr counters"
| "count_results (result # results) (successful, failed, skipped) =
     (if result = TranspileResult_Success
        then count_results results (successful + 1, failed, skipped)
      else if result = TranspileResult_Failed
        then count_results results (successful, failed + 1, skipped)
      else if result = TranspileResult_Skipped
        then count_results results (successful, failed, skipped + 1)
      else Inl (Error (''No handler for '' @ digits result)))"

definition summary :: string where
  "summary =
     ''------ Summary ------\<newline>%i demo(s) were successfully transpiled\<newline>%i demo(s) were skipped\<newline>%i demo(s) were unsuccessful''"

text \<open>
  How a call of \<open>main\<close> ends: it returns, the process exits with a status, or the
  promise is rejected with an error.
\<close>

datatype outcome = Returned | Exited nat | Rejected error

definition main ::
  "('program, 'ast, 'config) modules \<Rightarrow> argv \<Rightarrow> world \<Rightarrow> outcome \<times> world" where
  "main m args w =
     (let watchMode = watch args; cacheDisabled = disableCache args
      in case getFiles (files w) (path_join (workspaceRoot m) ''docs/src/pages'') of
           Inl e \<Rightarrow> (Rejected e, w)
         | Inr old \<Rightarrow>
        (case getFiles (files w) (path_join (workspaceRoot m) ''docs/data'') of
           Inl e \<Rightarrow> (Rejected e, w)
         | Inr new \<Rightarrow>
        (let tsxFiles = old @ new;
             program = createProgram m tsxFiles
         in case transpileAll m program cacheDisabled tsxFiles w of (results, w1) \<Rightarrow>
            (case count_results results (0, 0, 0) of
               Inl e \<Rightarrow> (Rejected e, w1)
             | Inr (successful, failed, skipped) \<Rightarrow>
            (let w2 = w1\<lparr>console := console w1 @
                        [ConsoleLog summary [Num successful, Num skipped, Num failed]]\<rparr>
             in if \<not> watchMode
                then (if failed > 0 then (Exited 1, w2) else (Returned, w2))
                else (Returned,
                      w2\<lparr>watchers := watchers w2 @ map (\<lambda>filePath. (filePath, 500)) tsxFiles,
                         console := console w2 @
                           [ConsoleLog ''\<newline>Watching for file changes...'' []]\<rparr>))))))"

text \<open>The listener a watcher runs when its file has changed.\<close>

definition on_change ::
  "('program, 'ast, 'config) modules \<Rightarrow> 'program \<Rightarrow> path \<Rightarrow> world \<Rightarrow> world" where
  "on_change m program filePath w =
     (case transpileFile m filePath program True w of (result, w') \<Rightarrow>
        if result = 0
        then w'\<lparr>console := console w' @ [ConsoleLog ''Success - %s'' [Str filePath]]\<rparr>
        else w')"

section \<open>PickersModalDialog\<close>

text \<open>
  A component is one of the three the file names or a component of the caller. An
  attribute value is a component, a boolean, a handler, a props object or \<open>undefined\<close>.
  An optional property that is absent (or \<open>null\<close>) is \<open>None\<close>.
\<close>

datatype 'c component = PickersModalDialogRoot | PickersModalDialogContent | Fade | Custom 'c

datatype ('c, 'h, 'p) attr =
  Component "'c component" | Bool bool | Handler 'h | Object 'p | Undefined

record 'c components =
  Dialog :: "'c component option"
  MobilePaper :: "'c component option"
  MobileTransition :: "'c component option"

record 'c slots =
  dialog :: "'c component option"
  mobilePaper :: "'c component option"
  mobileTransition :: "'c component option"

record ('c, 'h, 'p) slotsComponentsProps =
  dialog :: "(string \<times> ('c, 'h, 'p) attr) list option"
  mobilePaper :: "'p option"
  mobileTransition :: "'p option"

record ('c, 'h, 'p, 'n) props =
  children :: 'n
  onDismiss :: 'h
  "open" :: bool
  components :: "'c components option"
  componentsProps :: "('c, 'h, 'p) slotsComponentsProps option"
  slots :: "'c slots option"
  slotProps :: "('c, 'h, 'p) slotsComponentsProps option"

text \<open>
  An element is a component with the properties written on it, in the order written
  (a spread writes the properties of its object), and its children. A property written
  twice has the value written last.
\<close>

datatype ('c, 'h, 'p, 'n) element =
    Element "'c component" "(string \<times> ('c, 'h, 'p) attr) list" "('c, 'h, 'p, 'n) element list"
  | Children 'n

fun element_type :: "('c, 'h, 'p, 'n) element \<Rightarrow> 'c component option" where
  "element_type (Element c written es) = Some c"
| "element_type (Children n) = None"

fun element_prop :: "('c, 'h, 'p, 'n) element \<Rightarrow> string \<Rightarrow> ('c, 'h, 'p) attr option" where
  "element_prop (Element c written es) name = map_of (rev written) name"
| "element_prop (Children n) name = None"

text \<open>\<open>a?.f\<close>, \<open>a ?? b\<close>, and \<open>{...a}\<close> of an optional object.\<close>

definition optional_chain :: "'r option \<Rightarrow> ('r \<Rightarrow> 'a option) \<Rightarrow> 'a option" where
  "optional_chain a f = (case a of None \<Rightarrow> None | Some r \<Rightarrow> f r)"

definition nullish :: "'a option \<Rightarrow> 'a option \<Rightarrow> 'a option" where
  "nullish a b = (case a of None \<Rightarrow> b | Some x \<Rightarrow> Some x)"

definition spread :: "(string \<times> 'v) list option \<Rightarrow> (string \<times> 'v) list" where
  "spread a = (case a of None \<Rightarrow> [] | Some written \<Rightarrow> written)"

definition attr_of :: "('a \<Rightarrow> ('c, 'h, 'p) attr) \<Rightarrow> 'a option \<Rightarrow> ('c, 'h, 'p) attr" where
  "attr_of f a = (case a of None \<Rightarrow> Undefined | Some x \<Rightarrow> f x)"

definition PickersModalDialog :: "('c, 'h, 'p, 'n) props \<Rightarrow> ('c, 'h, 'p, 'n) element" where
  "PickersModalDialog ps =
     (let Dialog' = (case nullish (optional_chain (slots ps) slots.dialog)
                            (optional_chain (components ps) Dialog) of
                       None \<Rightarrow> PickersModalDialogRoot | Some c \<Rightarrow> c);
          Transition = (case nullish (optional_chain (slots ps) slots.mobileTransition)
                            (optional_chain (components ps) MobileTransition) of
                       None \<Rightarrow> Fade | Some c \<Rightarrow> c)
      in Element Dialog'
           ([(''open'', Bool (open ps)), (''onClose'', Handler (onDismiss ps))] @
            spread (optional_chain (componentsProps ps) slotsComponentsProps.dialog) @
            [(''TransitionComponent'', Component Transition),
             (''TransitionProps'',
                attr_of Object
                  (nullish (optional_chain (slotProps ps) slotsComponentsProps.mobileTransition)
                     (optional_chain (componentsProps ps) slotsComponentsProps.mobileTransition))),
             (''PaperComponent'',
                attr_of Component
                  (nullish (optional_chain (slots ps) slots.mobilePaper)
                     (optional_chain (components ps) MobilePaper))),
             (''PaperProps'',
                attr_of Object
                  (nullish (optional_chain (slotProps ps) slotsComponentsProps.mobilePaper)
                     (optional_chain (componentsProps ps) slotsComponentsProps.mobilePaper)))])
           [Element PickersModalDialogContent [] [Children (children ps)]])"

section \<open>Example inputs\<close>

text \<open>
  A stand-in for the tools, used at the concrete inputs below: Babel and Prettier leave
  the text as it is, and the injection appends the text of the prop types.
\<close>

definition demo_modules :: "(path list, string, unit) modules" where
  "demo_modules =
     \<lparr>workspaceRoot = ''/w'',
      transformAsync = (\<lambda>source options. Inr source),
      createProgram = (\<lambda>tsxFiles. tsxFiles),
      parseFromProgram = (\<lambda>tsxPath program resolve. Inr []),
      inject = (\<lambda>propTypesAST code. Inr (code @ propTypesAST)),
      resolveConfig = (\<lambda>jsPath config. Inr ()),
      format = (\<lambda>jsSource config filepath. Inr jsSource),
      fixBabelGeneratorIssues = (\<lambda>prettified. Inr prettified),
      fixLineEndings = (\<lambda>source formatted. Inr formatted)\<rparr>"

definition demo_files :: files where
  "demo_files =
     [(''/w'', Directory True 0),
      (''/w/docs'', Directory True 0),
      (''/w/docs/data'', Directory True 0),
      (''/w/docs/data/A.tsx'', File True ''let a: any;'' 1),
      (''/w/docs/data/A.js'', File True ''let a;'' 2),
      (''/w/docs/data/B.tsx'', File True ''let b;'' 3),
      (''/w/docs/data/P.tsx'',
         File True (''import P from '' @ [CHR 0x27] @ ''prop-types'' @ [CHR 0x27]) 4),
      (''/w/docs/data/P.js'', File True ''let p;'' 5),
      (''/w/locked'', Directory False 0)]"

definition demo_world :: world where
  "demo_world = \<lparr>files = demo_files, now = 9, trace = [], console = [], watchers = []\<rparr>"

text \<open>
  A second world that has the same entries for \<open>B.tsx\<close>, its \<open>.js\<close> path and their
  directory, and differs in another file, in the clock and in what was printed.
\<close>

definition later_world :: world where
  "later_world =
     demo_world\<lparr>files := (''/w/notes.txt'', File True ''n'' 7) # demo_files, now := 11,
       console := [ConsoleLog ''earlier'' []]\<rparr>"

text \<open>A world in which a directory has a name that ends with \<open>.tsx\<close>.\<close>

definition dotted_world :: world where
  "dotted_world =
     \<lparr>files = [(''/w'', Directory True 0), (''/w/docs'', Directory True 0),
               (''/w/docs/data'', Directory True 0),
               (''/w/docs/data/a.tsx'', Directory True 0),
               (''/w/docs/data/a.tsx/C.tsx'', File True ''let c;'' 1),
               (''/w/docs/data/a.js'', Directory True 0)],
      now = 9, trace = [], console = [], watchers = []\<rparr>"

definition batch_args :: argv where
  "batch_args = \<lparr>watch = False, disableCache = False\<rparr>"

definition exit_args :: argv where
  "exit_args = \<lparr>watch = False, disableCache = True\<rparr>"

section \<open>Properties of getFiles\<close>

lemma str_includes_append: "str_includes (xs @ ys @ zs) ys"
proof (induction xs)
  case Nil
  have "prefix ys (ys @ zs)" by simp
  then show ?case by (cases "ys @ zs") auto
next
  case (Cons x xs)
  then show ?case by simp
qed

lemma is_missing_ENOENT: "is_missing (SystemError ENOENT syscall p)"
  by (simp add: is_missing_def)

lemma Promise_all_ok: "Promise_all rs = Inr xs \<Longrightarrow> rs = map Inr xs"
  by (induction rs arbitrary: xs rule: Promise_all.induct) (auto split: sum.splits)

lemma Promise_all_error: "Promise_all rs = Inl e \<Longrightarrow> Inl e \<in> set rs"
  by (induction rs rule: Promise_all.induct) (auto split: sum.splits)

lemma Promise_all_rejects: "Inl e \<in> set rs \<Longrightarrow> \<exists>e'. Promise_all rs = Inl e'"
  by (induction rs rule: Promise_all.induct) (auto split: sum.splits)

lemma tsx_not_pages_ts: "endsWith p ''.tsx'' \<Longrightarrow> \<not> endsWith p ''/pages.ts''"
  by (auto simp: endsWith_def suffix_def)

lemma getFiles_unfold:
  "getFiles fs rootDir =
     (case fs_readdir fs rootDir of
        Inl e \<Rightarrow> getFiles_catch e
      | Inr names \<Rightarrow>
         (case Promise_all (map (getFiles_callback fs rootDir) names) of
            Inl e \<Rightarrow> getFiles_catch e
          | Inr pushed \<Rightarrow> Inr (concat pushed)))"
  unfolding getFiles_callback_def by (rule getFiles.simps)

lemma getFiles_pushed:
  assumes "getFiles fs rootDir = Inr tsxFiles" and "p \<in> set tsxFiles"
  obtains names name ps where "fs_readdir fs rootDir = Inr names" and "name \<in> set names"
    and "getFiles_callback fs rootDir name = Inr ps" and "p \<in> set ps"
proof (cases "fs_readdir fs rootDir")
  case (Inl e)
  with assms show ?thesis
    by (simp add: getFiles_unfold getFiles_catch_def split: if_splits)
next
  case (Inr names)
  show ?thesis
  proof (cases "Promise_all (map (getFiles_callback fs rootDir) names)")
    case (Inl e)
    with assms Inr show ?thesis
      by (simp add: getFiles_unfold getFiles_catch_def split: if_splits)
  next
    case pushed: (Inr pushed)
    with assms Inr have "p \<in> set (concat pushed)" by (simp add: getFiles_unfold)
    then obtain ps where "ps \<in> set pushed" and p: "p \<in> set ps" by auto
    moreover from pushed have "map (getFiles_callback fs rootDir) names = map Inr pushed"
      by (rule Promise_all_ok)
    ultimately have "Inr ps \<in> set (map (getFiles_callback fs rootDir) names)" by simp
    then obtain name where "name \<in> set names" and "getFiles_callback fs rootDir name = Inr ps"
      by auto
    then show ?thesis using Inr p by (intro that [of names name ps])
  qed
qed

definition selected :: "files \<Rightarrow> path \<Rightarrow> bool" where
  "selected fs p \<longleftrightarrow>
     endsWith p ''.tsx'' \<and>
     \<not> list_ex (\<lambda>ignorePath. endsWith p (path_normalize ignorePath)) ignoreList \<and>
     is_regular_file fs p"

lemma getFiles_selects_aux:
  "getFiles fs rootDir = Inr tsxFiles \<Longrightarrow> p \<in> set tsxFiles \<Longrightarrow>
     selected fs p \<and> (\<exists>names. p = foldl path_join rootDir names \<and> walk fs rootDir names)"
proof (induction fs rootDir arbitrary: tsxFiles rule: getFiles.induct)
  case (1 fs rootDir)
  from "1.prems" obtain names name ps where names: "fs_readdir fs rootDir = Inr names"
    and name: "name \<in> set names" and cb: "getFiles_callback fs rootDir name = Inr ps"
    and p: "p \<in> set ps"
    by (rule getFiles_pushed)
  from cb obtain stat where stat: "fs_stat fs (path_join rootDir name) = Inr stat"
    by (auto simp: getFiles_callback_def Let_def split: sum.splits)
  show ?case
  proof (cases "isDirectory stat")
    case True
    with cb stat have "getFiles fs (path_join rootDir name) = Inr ps"
      by (simp add: getFiles_callback_def Let_def)
    from "1.IH" [OF names name refl stat True this p]
    obtain rest where rest: "p = foldl path_join (path_join rootDir name) rest"
      "walk fs (path_join rootDir name) rest" and sel: "selected fs p"
      by (elim conjE exE)
    have "p = foldl path_join rootDir (name # rest)" using rest(1) by simp
    moreover have "walk fs rootDir (name # rest)"
      using names name stat True rest(2) by simp
    ultimately show ?thesis using sel by (intro conjI exI [of _ "name # rest"])
  next
    case False
    with cb stat p have eq: "p = path_join rootDir name" and isfile: "isFile stat"
      and tsx: "endsWith p ''.tsx''"
      and ign: "\<not> list_ex (\<lambda>ignorePath. endsWith p (path_normalize ignorePath)) ignoreList"
      by (auto simp: getFiles_callback_def Let_def split: if_splits)
    from stat isfile eq have "is_regular_file fs p"
      by (auto simp: fs_stat_def is_regular_file_def split: option.splits entry.splits)
    with tsx ign have "selected fs p" by (simp add: selected_def)
    moreover have "p = foldl path_join rootDir [name]" using eq by simp
    moreover have "walk fs rootDir [name]" using names name by simp
    ultimately show ?thesis by (intro conjI exI [of _ "[name]"])
  qed
qed

lemma getFiles_missing_root:
  assumes "map_of fs rootDir = None"
  shows "getFiles fs rootDir = Inr []"
proof -
  from assms have "fs_readdir fs rootDir = Inl (SystemError ENOENT ''scandir'' rootDir)"
    by (simp add: fs_readdir_def)
  then show ?thesis
    by (simp add: getFiles_unfold getFiles_catch_def is_missing_ENOENT)
qed

lemma getFiles_readdir_error:
  assumes "fs_readdir fs rootDir = Inl e"
  shows "getFiles fs rootDir = (if is_missing e then Inr [] else Inl e)"
  using assms by (simp add: getFiles_unfold getFiles_catch_def)

lemma getFiles_throws_other:
  assumes "getFiles fs rootDir = Inl e"
  shows "\<not> is_missing e"
  using assms
  by (auto simp: getFiles_unfold getFiles_catch_def split: sum.splits if_splits)

lemma readdir_lists_entries:
  assumes "fs_readdir fs dir = Inr names" and "name \<in> set names"
  shows "\<exists>stat. fs_stat fs (path_join dir name) = Inr stat"
proof -
  from assms obtain q e where q: "(q, e) \<in> set fs" and "name \<in> set (child_name dir q)"
    by (auto simp: fs_readdir_def split: option.splits entry.splits if_splits)
  then have "take (length dir + 1) q = dir @ ''/''" and "name = drop (length dir + 1) q"
    by (auto simp: child_name_def Let_def split: if_splits)
  then have "q = path_join dir name"
    unfolding path_join_def by (metis append.assoc append_take_drop_id)
  with q have "map_of fs (path_join dir name) \<noteq> None"
    by (metis map_of_eq_None_iff fst_conv image_eqI)
  then show ?thesis
    by (auto simp: fs_stat_def split: option.splits entry.splits)
qed

lemma getFiles_nested_error:
  assumes names: "fs_readdir fs rootDir = Inr names" and name: "name \<in> set names"
    and stat: "fs_stat fs (path_join rootDir name) = Inr stat" and dir: "isDirectory stat"
    and err: "getFiles fs (path_join rootDir name) = Inl e"
  shows "\<exists>e'. getFiles fs rootDir = Inl e'"
proof -
  from stat dir err have "getFiles_callback fs rootDir name = Inl e"
    by (simp add: getFiles_callback_def Let_def)
  with name have "Inl e \<in> set (map (getFiles_callback fs rootDir) names)"
    by (metis image_eqI set_map)
  then obtain e1 where all: "Promise_all (map (getFiles_callback fs rootDir) names) = Inl e1"
    using Promise_all_rejects by blast
  then have "Inl e1 \<in> set (map (getFiles_callback fs rootDir) names)"
    by (rule Promise_all_error)
  then obtain name1 where name1: "name1 \<in> set names"
    and cb1: "getFiles_callback fs rootDir name1 = Inl e1" by auto
  from readdir_lists_entries [OF names name1] obtain stat1
    where "fs_stat fs (path_join rootDir name1) = Inr stat1" ..
  with cb1 have "getFiles fs (path_join rootDir name1) = Inl e1"
    by (simp add: getFiles_callback_def Let_def split: if_splits)
  then have "\<not> is_missing e1" by (rule getFiles_throws_other)
  with names all have "getFiles fs rootDir = Inl e1"
    by (simp add: getFiles_unfold getFiles_catch_def)
  then show ?thesis ..
qed

text \<open>
  Claim C4. Every path that \<open>getFiles\<close> returns ends with \<open>.tsx\<close>, ends with no
  normalised entry of \<open>ignoreList\<close> (so not with \<open>/pages.ts\<close>), is the path of a regular
  file, and is reached from the given root directory by going down through directories
  that the traversal lists. Nothing else is returned.
\<close>

theorem getFiles_returns_tsx_files:
  assumes "getFiles fs rootDir = Inr tsxFiles" and "p \<in> set tsxFiles"
  shows "endsWith p ''.tsx'' \<and>
         (\<forall>ignorePath \<in> set ignoreList. \<not> endsWith p (path_normalize ignorePath)) \<and>
         \<not> endsWith p ''/pages.ts'' \<and>
         is_regular_file fs p \<and>
         (\<exists>names. p = foldl path_join rootDir names \<and> walk fs rootDir names)"
proof -
  from getFiles_selects_aux [OF assms]
  have sel: "selected fs p"
    and reached: "\<exists>names. p = foldl path_join rootDir names \<and> walk fs rootDir names"
    by simp_all
  from sel have tsx: "endsWith p ''.tsx''"
    and ign: "\<forall>ignorePath \<in> set ignoreList. \<not> endsWith p (path_normalize ignorePath)"
    and reg: "is_regular_file fs p"
    by (simp_all add: selected_def list_ex_iff)
  from tsx have "\<not> endsWith p ''/pages.ts''" by (rule tsx_not_pages_ts)
  with tsx ign reg reached show ?thesis by simp
qed

theorem getFiles_returns_tsx_files_witness:
  "getFiles demo_files ''/w/docs/data'' =
     Inr [''/w/docs/data/A.tsx'', ''/w/docs/data/B.tsx'', ''/w/docs/data/P.tsx''] \<and>
   endsWith ''/w/docs/data/B.tsx'' ''.tsx'' \<and>
   \<not> endsWith ''/w/docs/data/B.tsx'' ''/pages.ts'' \<and>
   is_regular_file demo_files ''/w/docs/data/B.tsx'' \<and>
   (\<exists>names. ''/w/docs/data/B.tsx'' = foldl path_join ''/w/docs/data'' names \<and>
      walk demo_files ''/w/docs/data'' names)"
proof -
  have found: "getFiles demo_files ''/w/docs/data'' =
     Inr [''/w/docs/data/A.tsx'', ''/w/docs/data/B.tsx'', ''/w/docs/data/P.tsx'']"
    by code_simp
  have "''/w/docs/data/B.tsx'' \<in>
          set [''/w/docs/data/A.tsx'', ''/w/docs/data/B.tsx'', ''/w/docs/data/P.tsx'']"
    by simp
  from getFiles_returns_tsx_files [OF found this] found show ?thesis by simp
qed



section \<open>Properties of transpileFile\<close>

definition quiet_rel :: "world \<Rightarrow> world \<Rightarrow> bool" where
  "quiet_rel w w' \<longleftrightarrow>
     now w' = now w \<and> watchers w' = watchers w \<and> console w' = console w \<and>
     filter is_Transpile (trace w') = filter is_Transpile (trace w)"

definition quiet :: "'a io \<Rightarrow> bool" where
  "quiet m \<longleftrightarrow> (\<forall>w. quiet_rel w (snd (m w)))"

lemma quiet_return: "quiet (io_return x)"
  by (simp add: quiet_def quiet_rel_def io_return_def)

lemma quiet_throw: "quiet (io_throw e)"
  by (simp add: quiet_def quiet_rel_def io_throw_def)

lemma quiet_call: "\<not> is_Transpile ev \<Longrightarrow> quiet (io_call ev r)"
  by (simp add: quiet_def quiet_rel_def io_call_def)

lemma quiet_bind:
  assumes "quiet m" and "\<And>x. quiet (f x)"
  shows "quiet (io_bind m f)"
proof -
  have "quiet_rel w (snd (io_bind m f w))" for w
  proof (cases "m w")
    case (Pair r w')
    have 1: "quiet_rel w w'" using assms(1) Pair by (auto simp: quiet_def dest: spec [of _ w])
    show ?thesis
    proof (cases r)
      case (Inl e)
      with Pair 1 show ?thesis by (simp add: io_bind_def)
    next
      case (Inr x)
      have "quiet_rel w' (snd (f x w'))" using assms(2) by (simp add: quiet_def)
      with 1 Pair Inr show ?thesis by (simp add: io_bind_def quiet_rel_def)
    qed
  qed
  then show ?thesis by (simp add: quiet_def)
qed

lemma quiet_both:
  assumes "quiet m1" and "quiet m2"
  shows "quiet (io_both m1 m2)"
proof -
  have "quiet_rel w (snd (io_both m1 m2 w))" for w
  proof -
    obtain r1 w1 where 1: "m1 w = (r1, w1)" by (cases "m1 w")
    obtain r2 w2 where 2: "m2 w1 = (r2, w2)" by (cases "m2 w1")
    have "quiet_rel w w1" using assms(1) 1 by (auto simp: quiet_def dest: spec [of _ w])
    moreover have "quiet_rel w1 w2" using assms(2) 2 by (auto simp: quiet_def dest: spec [of _ w1])
    ultimately show ?thesis using 1 2 by (simp add: io_both_def quiet_rel_def)
  qed
  then show ?thesis by (simp add: quiet_def)
qed

lemma quiet_if: "quiet m1 \<Longrightarrow> quiet m2 \<Longrightarrow> quiet (if c then m1 else m2)"
  by simp

lemma quiet_exists: "quiet (io_exists p)"
  by (simp add: quiet_def quiet_rel_def io_exists_def io_call_def)

lemma quiet_stat: "quiet (io_stat p)"
  by (simp add: quiet_def quiet_rel_def io_stat_def io_call_def)

lemma quiet_readFile: "quiet (io_readFile p)"
  by (simp add: quiet_def quiet_rel_def io_readFile_def io_call_def)

lemma quiet_writeFile: "quiet (io_writeFile p data)"
  by (simp add: quiet_def quiet_rel_def io_writeFile_def split: sum.split)

lemmas quiet_intros = quiet_bind quiet_both quiet_if quiet_return quiet_throw quiet_call
  quiet_exists quiet_stat quiet_readFile quiet_writeFile

lemma quiet_steps: "quiet (transpile_steps m tsxPath jsPath program)"
  unfolding transpile_steps_def Let_def
  by (intro quiet_intros allI) simp_all

lemma quiet_js_is_newer: "quiet (js_is_newer tsxPath jsPath ignoreCache)"
  unfolding js_is_newer_def
  by (intro quiet_intros allI) (simp_all add: split_def quiet_intros)

lemma quiet_try: "quiet (transpileFile_try m tsxPath jsPath program ignoreCache)"
  unfolding transpileFile_try_def
  by (intro quiet_intros allI quiet_steps quiet_js_is_newer)

lemmas io_defs = io_return_def io_throw_def io_bind_def io_call_def io_both_def
  io_exists_def io_stat_def io_readFile_def io_writeFile_def

lemma stat_ok_exists: "fs_stat fs p = Inr st \<Longrightarrow> fs_exists fs p"
  by (auto simp: fs_stat_def fs_exists_def split: option.splits)

lemma exists_stat_ok: "fs_exists fs p \<Longrightarrow> \<exists>st. fs_stat fs p = Inr st"
  by (auto simp: fs_stat_def fs_exists_def split: option.splits entry.splits)

lemma js_is_newer_skip:
  assumes "\<not> ignoreCache" "fs_stat (files w) jsPath = Inr jsStat"
    "fs_stat (files w) tsxPath = Inr tsxStat" "mtimeMs jsStat > mtimeMs tsxStat"
  shows "js_is_newer tsxPath jsPath ignoreCache w =
     (Inr True, w\<lparr>trace := trace w @ [Exists jsPath, Stat jsPath, Stat tsxPath]\<rparr>)"
  using assms stat_ok_exists [OF assms(2)]
  by (simp add: js_is_newer_def io_defs)

lemma js_is_newer_True:
  assumes "js_is_newer tsxPath jsPath ignoreCache w = (Inr True, w')"
  shows "\<not> ignoreCache \<and> (\<exists>jsStat tsxStat. fs_stat (files w) jsPath = Inr jsStat \<and>
           fs_stat (files w) tsxPath = Inr tsxStat \<and> mtimeMs jsStat > mtimeMs tsxStat)"
  using assms
  by (auto simp: js_is_newer_def io_defs split: if_splits sum.splits)

lemma js_is_newer_value:
  "fst (js_is_newer tsxPath jsPath ignoreCache w) =
     (if ignoreCache \<or> \<not> fs_exists (files w) jsPath then Inr False
      else case fs_stat (files w) jsPath of
             Inl e \<Rightarrow> Inl e
           | Inr jsStat \<Rightarrow>
              (case fs_stat (files w) tsxPath of
                 Inl e \<Rightarrow> Inl e
               | Inr tsxStat \<Rightarrow> Inr (mtimeMs jsStat > mtimeMs tsxStat)))"
  by (simp add: js_is_newer_def io_defs split: sum.splits)

lemma js_is_newer_frame:
  assumes "js_is_newer tsxPath jsPath ignoreCache w = (r, w')"
  shows "\<exists>checks. set checks \<subseteq> {Exists jsPath, Stat jsPath, Stat tsxPath} \<and>
           w' = w\<lparr>trace := trace w @ checks\<rparr>"
proof -
  consider "ignoreCache" | "\<not> ignoreCache" "\<not> fs_exists (files w) jsPath"
    | "\<not> ignoreCache" "fs_exists (files w) jsPath" by blast
  then show ?thesis
  proof cases
    case 1
    with assms have "w' = w\<lparr>trace := trace w @ []\<rparr>"
      by (simp add: js_is_newer_def io_defs)
    then show ?thesis by (intro exI [of _ "[]"]) simp
  next
    case 2
    with assms have "w' = w\<lparr>trace := trace w @ [Exists jsPath]\<rparr>"
      by (simp add: js_is_newer_def io_defs)
    then show ?thesis by (intro exI [of _ "[Exists jsPath]"]) simp
  next
    case 3
    with assms have "w' = w\<lparr>trace := trace w @ [Exists jsPath, Stat jsPath, Stat tsxPath]\<rparr>"
      by (auto simp: js_is_newer_def io_defs split: sum.splits)
    then show ?thesis
      by (intro exI [of _ "[Exists jsPath, Stat jsPath, Stat tsxPath]"]) simp
  qed
qed

lemma try_cases:
  obtains (newer) w1 where "js_is_newer tsxPath jsPath ignoreCache w = (Inr True, w1)"
      and "transpileFile_try m tsxPath jsPath program ignoreCache w = (Inr TranspileResult_Skipped, w1)"
  | (error) e w1 where "js_is_newer tsxPath jsPath ignoreCache w = (Inl e, w1)"
      and "transpileFile_try m tsxPath jsPath program ignoreCache w = (Inl e, w1)"
  | (run) w1 where "js_is_newer tsxPath jsPath ignoreCache w = (Inr False, w1)"
      and "transpileFile_try m tsxPath jsPath program ignoreCache w =
             transpile_steps m tsxPath jsPath program w1"
proof (cases "js_is_newer tsxPath jsPath ignoreCache w")
  case (Pair r w1)
  show ?thesis
  proof (cases r)
    case (Inl e)
    with Pair show ?thesis
      by (intro error [of e w1]) (simp_all add: transpileFile_try_def io_bind_def)
  next
    case (Inr b)
    show ?thesis
    proof (cases b)
      case True
      with Pair Inr show ?thesis
        by (intro newer [of w1]) (simp_all add: transpileFile_try_def io_bind_def io_return_def)
    next
      case False
      with Pair Inr show ?thesis
        by (intro run [of w1]) (simp_all add: transpileFile_try_def io_bind_def)
    qed
  qed
qed

lemma transpile_steps_ok:
  assumes "transpile_steps m tsxPath jsPath program w = (Inr r, w')"
  shows "r = TranspileResult_Success \<and>
    (\<exists>source code propTypesAST codeWithPropTypes prettierConfig prettified formatted
        correctedLineEndings data fs'.
       fs_readFile (files w) tsxPath = Inr source \<and>
       transformAsync m source (transformOptions_for tsxPath) = Inr code \<and>
       \<not> propTypes_import_test code \<and>
       parseFromProgram m tsxPath program shouldResolveObject = Inr propTypesAST \<and>
       inject m propTypesAST code = Inr codeWithPropTypes \<and>
       resolveConfig m jsPath (path_join (workspaceRoot m) ''prettier.config.js'') =
         Inr prettierConfig \<and>
       format m codeWithPropTypes prettierConfig jsPath = Inr prettified \<and>
       fixBabelGeneratorIssues m prettified = Inr formatted \<and>
       fixLineEndings m source formatted = Inr correctedLineEndings \<and>
       format m correctedLineEndings prettierConfig jsPath = Inr data \<and>
       fs_writeFile (files w) (now w) jsPath data = Inr fs' \<and>
       w' = w\<lparr>files := fs',
               trace := trace w @ [ReadFile tsxPath, TransformAsync tsxPath,
                 ParseFromProgram tsxPath, Inject, ResolveConfig jsPath, Format,
                 FixBabelGeneratorIssues, FixLineEndings, Format, WriteFile jsPath]\<rparr>)"
  using assms
  by (auto simp: transpile_steps_def io_defs Let_def split: sum.splits if_splits)

lemma transpile_steps_run:
  assumes "fs_readFile (files w) tsxPath = Inr source"
    and "transformAsync m source (transformOptions_for tsxPath) = Inr code"
    and "\<not> propTypes_import_test code"
    and "parseFromProgram m tsxPath program shouldResolveObject = Inr propTypesAST"
    and "inject m propTypesAST code = Inr codeWithPropTypes"
    and "resolveConfig m jsPath (path_join (workspaceRoot m) ''prettier.config.js'') =
         Inr prettierConfig"
    and "format m codeWithPropTypes prettierConfig jsPath = Inr prettified"
    and "fixBabelGeneratorIssues m prettified = Inr formatted"
    and "fixLineEndings m source formatted = Inr correctedLineEndings"
    and "format m correctedLineEndings prettierConfig jsPath = Inr data"
    and "fs_writeFile (files w) (now w) jsPath data = Inr fs'"
  shows "transpile_steps m tsxPath jsPath program w =
     (Inr TranspileResult_Success,
      w\<lparr>files := fs',
        trace := trace w @ [ReadFile tsxPath, TransformAsync tsxPath,
                 ParseFromProgram tsxPath, Inject, ResolveConfig jsPath, Format,
                 FixBabelGeneratorIssues, FixLineEndings, Format, WriteFile jsPath]\<rparr>)"
  using assms by (simp add: transpile_steps_def io_defs Let_def)

lemma transpile_steps_propTypes:
  assumes "fs_readFile (files w) tsxPath = Inr source"
    and "transformAsync m source (transformOptions_for tsxPath) = Inr code"
    and "propTypes_import_test code"
  shows "transpile_steps m tsxPath jsPath program w =
     (Inl (Error ''TypeScript demo contains prop-types, please remove them''),
      w\<lparr>trace := trace w @ [ReadFile tsxPath, TransformAsync tsxPath]\<rparr>)"
  using assms by (simp add: transpile_steps_def io_defs Let_def)

lemma transpileFile_unfold:
  "transpileFile m tsxPath program ignoreCache w =
     (case transpileFile_try m tsxPath (jsPath_of tsxPath) program ignoreCache
             (w\<lparr>trace := trace w @ [Transpile tsxPath]\<rparr>) of
        (Inr result, w') \<Rightarrow> (result, w')
      | (Inl err, w') \<Rightarrow>
          (TranspileResult_Failed,
           w'\<lparr>console := console w' @
              [ConsoleError ''Something went wrong transpiling %s\<newline>%s\<newline>''
                 [Str tsxPath, Err err]]\<rparr>))"
  by (simp add: transpileFile_def Let_def)

lemma TranspileResult_distinct:
  "TranspileResult_Success \<noteq> TranspileResult_Skipped"
  "TranspileResult_Success \<noteq> TranspileResult_Failed"
  "TranspileResult_Skipped \<noteq> TranspileResult_Failed"
  by (simp_all add: TranspileResult_Success_def TranspileResult_Skipped_def
        TranspileResult_Failed_def)

lemma transpileFile_success_try:
  assumes "transpileFile m tsxPath program ignoreCache w = (TranspileResult_Success, w')"
  shows "transpileFile_try m tsxPath (jsPath_of tsxPath) program ignoreCache
           (w\<lparr>trace := trace w @ [Transpile tsxPath]\<rparr>) = (Inr TranspileResult_Success, w')"
  using assms TranspileResult_distinct(2)
  by (auto simp: transpileFile_unfold split: prod.splits sum.splits)

lemma transpileFile_skip:
  assumes "\<not> ignoreCache"
    and "fs_stat (files w) (jsPath_of tsxPath) = Inr jsStat"
    and "fs_stat (files w) tsxPath = Inr tsxStat"
    and "mtimeMs jsStat > mtimeMs tsxStat"
  shows "transpileFile m tsxPath program ignoreCache w =
     (TranspileResult_Skipped,
      w\<lparr>trace := trace w @ [Transpile tsxPath, Exists (jsPath_of tsxPath),
             Stat (jsPath_of tsxPath), Stat tsxPath]\<rparr>)"
proof -
  let ?w = "w\<lparr>trace := trace w @ [Transpile tsxPath]\<rparr>"
  have "js_is_newer tsxPath (jsPath_of tsxPath) ignoreCache ?w =
     (Inr True, ?w\<lparr>trace := trace ?w @ [Exists (jsPath_of tsxPath),
             Stat (jsPath_of tsxPath), Stat tsxPath]\<rparr>)"
    using assms by (intro js_is_newer_skip) simp_all
  then show ?thesis
    by (simp add: transpileFile_def transpileFile_try_def io_bind_def io_return_def Let_def)
qed



subsection \<open>A successful run\<close>

lemma transpileFile_success_chain:
  assumes "transpileFile m tsxPath program ignoreCache w = (TranspileResult_Success, w')"
  shows "\<exists>source code propTypesAST codeWithPropTypes prettierConfig prettified formatted
        correctedLineEndings data checks.
       fs_readFile (files w) tsxPath = Inr source \<and>
       transformAsync m source (transformOptions_for tsxPath) = Inr code \<and>
       \<not> propTypes_import_test code \<and>
       parseFromProgram m tsxPath program shouldResolveObject = Inr propTypesAST \<and>
       inject m propTypesAST code = Inr codeWithPropTypes \<and>
       resolveConfig m (jsPath_of tsxPath)
         (path_join (workspaceRoot m) ''prettier.config.js'') = Inr prettierConfig \<and>
       format m codeWithPropTypes prettierConfig (jsPath_of tsxPath) = Inr prettified \<and>
       fixBabelGeneratorIssues m prettified = Inr formatted \<and>
       fixLineEndings m source formatted = Inr correctedLineEndings \<and>
       format m correctedLineEndings prettierConfig (jsPath_of tsxPath) = Inr data \<and>
       fs_writeFile (files w) (now w) (jsPath_of tsxPath) data = Inr (files w') \<and>
       set checks \<subseteq> {Exists (jsPath_of tsxPath), Stat (jsPath_of tsxPath), Stat tsxPath} \<and>
       trace w' = trace w @ [Transpile tsxPath] @ checks @
         [ReadFile tsxPath, TransformAsync tsxPath, ParseFromProgram tsxPath, Inject,
          ResolveConfig (jsPath_of tsxPath), Format, FixBabelGeneratorIssues, FixLineEndings,
          Format, WriteFile (jsPath_of tsxPath)]"
proof -
  let ?w0 = "w\<lparr>trace := trace w @ [Transpile tsxPath]\<rparr>"
  let ?js = "jsPath_of tsxPath"
  have tried: "transpileFile_try m tsxPath ?js program ignoreCache ?w0 =
     (Inr TranspileResult_Success, w')"
    using assms by (rule transpileFile_success_try)
  show ?thesis
  proof (cases rule: try_cases [of tsxPath ?js ignoreCache ?w0 m program])
    case (newer w1)
    with tried show ?thesis using TranspileResult_distinct(1) by simp
  next
    case (error e w1)
    with tried show ?thesis by simp
  next
    case (run w1)
    from js_is_newer_frame [OF run(1)] obtain checks
      where checks: "set checks \<subseteq> {Exists ?js, Stat ?js, Stat tsxPath}"
        and w1: "w1 = ?w0\<lparr>trace := trace ?w0 @ checks\<rparr>" by blast
    from run(2) tried have "transpile_steps m tsxPath ?js program w1 =
      (Inr TranspileResult_Success, w')" by simp
    from transpile_steps_ok [OF this]
    obtain source code propTypesAST codeWithPropTypes prettierConfig prettified formatted
        correctedLineEndings data fs' where
       "fs_readFile (files w1) tsxPath = Inr source"
       "transformAsync m source (transformOptions_for tsxPath) = Inr code"
       "\<not> propTypes_import_test code"
       "parseFromProgram m tsxPath program shouldResolveObject = Inr propTypesAST"
       "inject m propTypesAST code = Inr codeWithPropTypes"
       "resolveConfig m ?js (path_join (workspaceRoot m) ''prettier.config.js'') =
         Inr prettierConfig"
       "format m codeWithPropTypes prettierConfig ?js = Inr prettified"
       "fixBabelGeneratorIssues m prettified = Inr formatted"
       "fixLineEndings m source formatted = Inr correctedLineEndings"
       "format m correctedLineEndings prettierConfig ?js = Inr data"
       "fs_writeFile (files w1) (now w1) ?js data = Inr fs'"
       "w' = w1\<lparr>files := fs',
               trace := trace w1 @ [ReadFile tsxPath, TransformAsync tsxPath,
                 ParseFromProgram tsxPath, Inject, ResolveConfig ?js, Format,
                 FixBabelGeneratorIssues, FixLineEndings, Format, WriteFile ?js]\<rparr>"
      by (elim conjE exE)
    note chain = this
    from w1 have same: "files w1 = files w" "now w1 = now w"
      and tr: "trace w1 = trace w @ [Transpile tsxPath] @ checks" by simp_all
    from chain(12) same tr have files': "fs' = files w'"
      and trace': "trace w' = trace w @ [Transpile tsxPath] @ checks @
         [ReadFile tsxPath, TransformAsync tsxPath, ParseFromProgram tsxPath, Inject,
          ResolveConfig ?js, Format, FixBabelGeneratorIssues, FixLineEndings,
          Format, WriteFile ?js]" by simp_all
    from chain(1) same have rd: "fs_readFile (files w) tsxPath = Inr source" by simp
    from chain(11) same files'
    have wr: "fs_writeFile (files w) (now w) ?js data = Inr (files w')" by simp
    show ?thesis
      apply (rule exI [of _ source], rule exI [of _ code], rule exI [of _ propTypesAST])
      apply (rule exI [of _ codeWithPropTypes], rule exI [of _ prettierConfig])
      apply (rule exI [of _ prettified], rule exI [of _ formatted])
      apply (rule exI [of _ correctedLineEndings], rule exI [of _ data])
      apply (rule exI [of _ checks])
      apply (intro conjI)
      apply (fact rd chain(2-10) wr checks trace')+
      done
  qed
qed

text \<open>
  Claim C3. When \<open>transpileFile\<close> returns \<open>TranspileResult.Success\<close>, the text
  written to the \<open>.js\<close> path was made in this order: the source was read from the
  \<open>.tsx\<close> file; Babel transformed it; the transformed code has no import of
  \<open>prop-types\<close>; the prop types parsed from the program for this file were injected
  into the transformed code; Prettier formatted the result, which then went through
  \<open>fixBabelGeneratorIssues\<close>, \<open>fixLineEndings\<close> and Prettier once more; and this
  text was written. Every step succeeded on the result of the step before it, and the
  effects happened in this order, after the checks of the cache.
\<close>

theorem transpileFile_success_pipeline:
  assumes "transpileFile m tsxPath program ignoreCache w = (TranspileResult_Success, w')"
  shows "\<exists>source code propTypesAST codeWithPropTypes prettierConfig prettified formatted
        correctedLineEndings data checks.
       fs_readFile (files w) tsxPath = Inr source \<and>
       transformAsync m source (transformOptions_for tsxPath) = Inr code \<and>
       \<not> propTypes_import_test code \<and>
       parseFromProgram m tsxPath program shouldResolveObject = Inr propTypesAST \<and>
       inject m propTypesAST code = Inr codeWithPropTypes \<and>
       resolveConfig m (jsPath_of tsxPath)
         (path_join (workspaceRoot m) ''prettier.config.js'') = Inr prettierConfig \<and>
       format m codeWithPropTypes prettierConfig (jsPath_of tsxPath) = Inr prettified \<and>
       fixBabelGeneratorIssues m prettified = Inr formatted \<and>
       fixLineEndings m source formatted = Inr correctedLineEndings \<and>
       format m correctedLineEndings prettierConfig (jsPath_of tsxPath) = Inr data \<and>
       fs_writeFile (files w) (now w) (jsPath_of tsxPath) data = Inr (files w') \<and>
       set checks \<subseteq> {Exists (jsPath_of tsxPath), Stat (jsPath_of tsxPath), Stat tsxPath} \<and>
       trace w' = trace w @ [Transpile tsxPath] @ checks @
         [ReadFile tsxPath, TransformAsync tsxPath, ParseFromProgram tsxPath, Inject,
          ResolveConfig (jsPath_of tsxPath), Format, FixBabelGeneratorIssues, FixLineEndings,
          Format, WriteFile (jsPath_of tsxPath)]"
  using assms by (rule transpileFile_success_chain)

theorem transpileFile_success_pipeline_witness:
  "\<exists>w'. transpileFile demo_modules ''/w/docs/data/B.tsx'' [] False demo_world =
          (TranspileResult_Success, w') \<and>
     map_of (files w') ''/w/docs/data/B.js'' = Some (File True ''let b;'' 9) \<and>
     (\<exists>source code propTypesAST codeWithPropTypes prettierConfig prettified formatted
        correctedLineEndings data checks.
       fs_readFile (files demo_world) ''/w/docs/data/B.tsx'' = Inr source \<and>
       transformAsync demo_modules source (transformOptions_for ''/w/docs/data/B.tsx'') =
         Inr code \<and>
       \<not> propTypes_import_test code \<and>
       parseFromProgram demo_modules ''/w/docs/data/B.tsx'' [] shouldResolveObject =
         Inr propTypesAST \<and>
       inject demo_modules propTypesAST code = Inr codeWithPropTypes \<and>
       resolveConfig demo_modules (jsPath_of ''/w/docs/data/B.tsx'')
         (path_join (workspaceRoot demo_modules) ''prettier.config.js'') = Inr prettierConfig \<and>
       format demo_modules codeWithPropTypes prettierConfig (jsPath_of ''/w/docs/data/B.tsx'') =
         Inr prettified \<and>
       fixBabelGeneratorIssues demo_modules prettified = Inr formatted \<and>
       fixLineEndings demo_modules source formatted = Inr correctedLineEndings \<and>
       format demo_modules correctedLineEndings prettierConfig
         (jsPath_of ''/w/docs/data/B.tsx'') = Inr data \<and>
       fs_writeFile (files demo_world) (now demo_world) (jsPath_of ''/w/docs/data/B.tsx'') data =
         Inr (files w') \<and>
       set checks \<subseteq> {Exists (jsPath_of ''/w/docs/data/B.tsx''),
         Stat (jsPath_of ''/w/docs/data/B.tsx''), Stat ''/w/docs/data/B.tsx''} \<and>
       trace w' = trace demo_world @ [Transpile ''/w/docs/data/B.tsx''] @ checks @
         [ReadFile ''/w/docs/data/B.tsx'', TransformAsync ''/w/docs/data/B.tsx'',
          ParseFromProgram ''/w/docs/data/B.tsx'', Inject,
          ResolveConfig (jsPath_of ''/w/docs/data/B.tsx''), Format, FixBabelGeneratorIssues,
          FixLineEndings, Format, WriteFile (jsPath_of ''/w/docs/data/B.tsx'')])"
proof -
  let ?w' = "demo_world\<lparr>files := (''/w/docs/data/B.js'', File True ''let b;'' 9) # demo_files,
    trace := [Transpile ''/w/docs/data/B.tsx'', Exists ''/w/docs/data/B.js'',
      ReadFile ''/w/docs/data/B.tsx'', TransformAsync ''/w/docs/data/B.tsx'',
      ParseFromProgram ''/w/docs/data/B.tsx'', Inject, ResolveConfig ''/w/docs/data/B.js'',
      Format, FixBabelGeneratorIssues, FixLineEndings, Format,
      WriteFile ''/w/docs/data/B.js'']\<rparr>"
  have run: "transpileFile demo_modules ''/w/docs/data/B.tsx'' [] False demo_world =
     (TranspileResult_Success, ?w')"
    by code_simp
  have written: "map_of (files ?w') ''/w/docs/data/B.js'' = Some (File True ''let b;'' 9)"
    by simp
  from run written transpileFile_success_pipeline [OF run] show ?thesis
    by (intro exI [of _ ?w'] conjI)
qed

subsection \<open>An import of prop-types\<close>

lemma readFile_ok_stat: "fs_readFile fs p = Inr c \<Longrightarrow> \<exists>st. fs_stat fs p = Inr st"
  by (auto simp: fs_readFile_def fs_stat_def split: option.splits entry.splits)

lemma js_is_newer_False:
  assumes "fs_readFile (files w) tsxPath = Inr source"
    and "ignoreCache \<or> (\<forall>jsStat tsxStat. fs_stat (files w) jsPath = Inr jsStat \<and>
           fs_stat (files w) tsxPath = Inr tsxStat \<longrightarrow> \<not> mtimeMs jsStat > mtimeMs tsxStat)"
  shows "fst (js_is_newer tsxPath jsPath ignoreCache w) = Inr False"
proof (cases "ignoreCache \<or> \<not> fs_exists (files w) jsPath")
  case True
  then show ?thesis by (simp add: js_is_newer_value)
next
  case False
  then obtain jsStat where js: "fs_stat (files w) jsPath = Inr jsStat"
    using exists_stat_ok by blast
  from assms(1) obtain tsxStat where tsx: "fs_stat (files w) tsxPath = Inr tsxStat"
    using readFile_ok_stat by blast
  from False assms(2) js tsx have "\<not> mtimeMs jsStat > mtimeMs tsxStat" by blast
  with False js tsx show ?thesis by (simp add: js_is_newer_value)
qed




subsection \<open>Two runs on the same input\<close>

lemma transpileFile_result_cases:
  obtains (skipped) w1 where
      "js_is_newer tsxPath (jsPath_of tsxPath) ignoreCache
         (w\<lparr>trace := trace w @ [Transpile tsxPath]\<rparr>) = (Inr True, w1)"
      "transpileFile m tsxPath program ignoreCache w = (TranspileResult_Skipped, w1)"
  | (failed) w' where
      "transpileFile m tsxPath program ignoreCache w = (TranspileResult_Failed, w')"
  | (success) w1 w' where
      "js_is_newer tsxPath (jsPath_of tsxPath) ignoreCache
         (w\<lparr>trace := trace w @ [Transpile tsxPath]\<rparr>) = (Inr False, w1)"
      "transpile_steps m tsxPath (jsPath_of tsxPath) program w1 = (Inr TranspileResult_Success, w')"
      "transpileFile m tsxPath program ignoreCache w = (TranspileResult_Success, w')"
proof -
  let ?w0 = "w\<lparr>trace := trace w @ [Transpile tsxPath]\<rparr>"
  let ?js = "jsPath_of tsxPath"
  show ?thesis
  proof (cases rule: try_cases [of tsxPath ?js ignoreCache ?w0 m program])
    case (newer w1)
    then show ?thesis by (intro skipped [of w1]) (simp_all add: transpileFile_unfold)
  next
    case (error e w1)
    then show ?thesis by (intro failed) (simp add: transpileFile_unfold)
  next
    case (run w1)
    obtain r w' where steps: "transpile_steps m tsxPath ?js program w1 = (r, w')"
      by (cases "transpile_steps m tsxPath ?js program w1")
    show ?thesis
    proof (cases r)
      case (Inl e)
      with run steps show ?thesis by (intro failed) (simp add: transpileFile_unfold)
    next
      case (Inr result)
      with steps transpile_steps_ok [of m tsxPath ?js program w1 result w']
      have "result = TranspileResult_Success" by simp
      with run steps Inr show ?thesis
        by (intro success [of w1 w']) (simp_all add: transpileFile_unfold)
    qed
  qed
qed

lemma transpileFile_range:
  "fst (transpileFile m tsxPath program ignoreCache w) \<in>
     {TranspileResult_Success, TranspileResult_Skipped, TranspileResult_Failed}"
  by (cases rule: transpileFile_result_cases [of tsxPath ignoreCache w m program]) simp_all

lemma agree_exists: "map_of fs1 p = map_of fs2 p \<Longrightarrow> fs_exists fs1 p = fs_exists fs2 p"
  by (simp add: fs_exists_def)

lemma agree_stat: "map_of fs1 p = map_of fs2 p \<Longrightarrow> fs_stat fs1 p = fs_stat fs2 p"
  by (simp add: fs_stat_def)

lemma agree_readFile: "map_of fs1 p = map_of fs2 p \<Longrightarrow> fs_readFile fs1 p = fs_readFile fs2 p"
  by (simp add: fs_readFile_def)

lemma agree_writeFile:
  assumes "map_of fs1 p = map_of fs2 p" and "map_of fs1 (dirname p) = map_of fs2 (dirname p)"
    and "fs_writeFile fs1 now1 p data = Inr fs1'"
  shows "fs_writeFile fs2 now2 p data = Inr ((p, File True data now2) # fs2)"
  using assms(3)
  by (auto simp: fs_writeFile_def assms(1) [symmetric] assms(2) [symmetric]
        split: option.splits entry.splits)

lemma writeFile_written:
  "fs_writeFile fs t p data = Inr fs' \<Longrightarrow> map_of fs' p = Some (File True data t)"
  by (auto simp: fs_writeFile_def split: option.splits entry.splits)

lemma agree_js_is_newer:
  assumes "map_of (files w1) tsxPath = map_of (files w2) tsxPath"
    and "map_of (files w1) jsPath = map_of (files w2) jsPath"
  shows "fst (js_is_newer tsxPath jsPath ignoreCache w1) =
         fst (js_is_newer tsxPath jsPath ignoreCache w2)"
  by (simp add: js_is_newer_value agree_exists [OF assms(2)] agree_stat [OF assms(1)]
        agree_stat [OF assms(2)] cong: sum.case_cong)

lemma js_is_newer_keeps:
  assumes "js_is_newer tsxPath jsPath ignoreCache w = (r, w')"
  shows "files w' = files w" and "now w' = now w"
  using js_is_newer_frame [OF assms] by auto

text \<open>
  A successful run on one world is a successful run on every world that agrees with it
  on the three paths.
\<close>

lemma success_transfers:
  assumes tsx: "map_of (files w1) tsxPath = map_of (files w2) tsxPath"
    and js: "map_of (files w1) (jsPath_of tsxPath) = map_of (files w2) (jsPath_of tsxPath)"
    and dir: "map_of (files w1) (dirname (jsPath_of tsxPath)) =
              map_of (files w2) (dirname (jsPath_of tsxPath))"
    and ok: "fst (transpileFile m tsxPath program ignoreCache w1) = TranspileResult_Success"
  shows "fst (transpileFile m tsxPath program ignoreCache w2) = TranspileResult_Success \<and>
    (\<exists>data.
       map_of (files (snd (transpileFile m tsxPath program ignoreCache w1))) (jsPath_of tsxPath) =
         Some (File True data (now w1)) \<and>
       map_of (files (snd (transpileFile m tsxPath program ignoreCache w2))) (jsPath_of tsxPath) =
         Some (File True data (now w2)))"
proof (cases rule: transpileFile_result_cases [of tsxPath ignoreCache w1 m program])
  case (skipped w1a)
  with ok show ?thesis using TranspileResult_distinct(1) by simp
next
  case (failed w')
  with ok show ?thesis using TranspileResult_distinct(2) by simp
next
  case (success w1a w1')
  let ?js = "jsPath_of tsxPath"
  let ?v1 = "w1\<lparr>trace := trace w1 @ [Transpile tsxPath]\<rparr>"
  let ?v2 = "w2\<lparr>trace := trace w2 @ [Transpile tsxPath]\<rparr>"
  from js_is_newer_keeps [OF success(1)] have same1: "files w1a = files w1" "now w1a = now w1"
    by simp_all
  obtain r2 w2a where newer2: "js_is_newer tsxPath ?js ignoreCache ?v2 = (r2, w2a)"
    by (cases "js_is_newer tsxPath ?js ignoreCache ?v2")
  from js_is_newer_keeps [OF newer2] have same2: "files w2a = files w2" "now w2a = now w2"
    by simp_all
  from agree_js_is_newer [of ?v1 tsxPath ?v2 ?js ignoreCache] tsx js success(1) newer2
  have r2: "r2 = Inr False" by simp
  from transpile_steps_ok [OF success(2)]
  obtain source code propTypesAST codeWithPropTypes prettierConfig prettified formatted
        correctedLineEndings data fs' where chain:
       "fs_readFile (files w1a) tsxPath = Inr source"
       "transformAsync m source (transformOptions_for tsxPath) = Inr code"
       "\<not> propTypes_import_test code"
       "parseFromProgram m tsxPath program shouldResolveObject = Inr propTypesAST"
       "inject m propTypesAST code = Inr codeWithPropTypes"
       "resolveConfig m ?js (path_join (workspaceRoot m) ''prettier.config.js'') =
         Inr prettierConfig"
       "format m codeWithPropTypes prettierConfig ?js = Inr prettified"
       "fixBabelGeneratorIssues m prettified = Inr formatted"
       "fixLineEndings m source formatted = Inr correctedLineEndings"
       "format m correctedLineEndings prettierConfig ?js = Inr data"
       "fs_writeFile (files w1a) (now w1a) ?js data = Inr fs'"
       and w1': "files w1' = fs'"
    by (elim conjE exE) simp
  from chain(1) same1 same2 agree_readFile [OF tsx]
  have rd2: "fs_readFile (files w2a) tsxPath = Inr source" by simp
  from agree_writeFile [OF js dir, of "now w1" data fs' "now w2"] chain(11) same1 same2
  have wr2: "fs_writeFile (files w2a) (now w2a) ?js data =
      Inr ((?js, File True data (now w2)) # files w2)" by simp
  from transpile_steps_run [OF rd2 chain(2-10) wr2]
  have "transpile_steps m tsxPath ?js program w2a =
     (Inr TranspileResult_Success,
      w2a\<lparr>files := (?js, File True data (now w2)) # files w2,
        trace := trace w2a @ [ReadFile tsxPath, TransformAsync tsxPath,
                 ParseFromProgram tsxPath, Inject, ResolveConfig ?js, Format,
                 FixBabelGeneratorIssues, FixLineEndings, Format, WriteFile ?js]\<rparr>)" .
  with newer2 r2 have run2: "transpileFile m tsxPath program ignoreCache w2 =
     (TranspileResult_Success,
      w2a\<lparr>files := (?js, File True data (now w2)) # files w2,
        trace := trace w2a @ [ReadFile tsxPath, TransformAsync tsxPath,
                 ParseFromProgram tsxPath, Inject, ResolveConfig ?js, Format,
                 FixBabelGeneratorIssues, FixLineEndings, Format, WriteFile ?js]\<rparr>)"
    by (simp add: transpileFile_unfold transpileFile_try_def io_bind_def)
  from writeFile_written [OF chain(11)] w1' same1 success(3)
  have out1: "map_of (files (snd (transpileFile m tsxPath program ignoreCache w1))) ?js =
      Some (File True data (now w1))" by simp
  from run2
  have out2: "map_of (files (snd (transpileFile m tsxPath program ignoreCache w2))) ?js =
      Some (File True data (now w2))" by simp
  from run2 have "fst (transpileFile m tsxPath program ignoreCache w2) = TranspileResult_Success"
    by simp
  with out1 out2 show ?thesis by (intro conjI exI [of _ data])
qed

lemma skipped_transfers:
  assumes tsx: "map_of (files w1) tsxPath = map_of (files w2) tsxPath"
    and js: "map_of (files w1) (jsPath_of tsxPath) = map_of (files w2) (jsPath_of tsxPath)"
    and ok: "fst (transpileFile m tsxPath program ignoreCache w1) = TranspileResult_Skipped"
  shows "fst (transpileFile m tsxPath program ignoreCache w2) = TranspileResult_Skipped"
proof (cases rule: transpileFile_result_cases [of tsxPath ignoreCache w1 m program])
  case (skipped w1a)
  let ?js = "jsPath_of tsxPath"
  let ?v1 = "w1\<lparr>trace := trace w1 @ [Transpile tsxPath]\<rparr>"
  let ?v2 = "w2\<lparr>trace := trace w2 @ [Transpile tsxPath]\<rparr>"
  obtain r2 w2a where newer2: "js_is_newer tsxPath ?js ignoreCache ?v2 = (r2, w2a)"
    by (cases "js_is_newer tsxPath ?js ignoreCache ?v2")
  from agree_js_is_newer [of ?v1 tsxPath ?v2 ?js ignoreCache] tsx js skipped(1) newer2
  have "r2 = Inr True" by simp
  with newer2 show ?thesis
    by (simp add: transpileFile_unfold transpileFile_try_def io_bind_def io_return_def)
next
  case (failed w')
  with ok show ?thesis using TranspileResult_distinct(3) by simp
next
  case (success w1a w1')
  with ok show ?thesis using TranspileResult_distinct(1) by simp
qed



subsection \<open>The path of the output\<close>

lemma replace_only_at_end:
  assumes "\<forall>i<length stem. \<not> prefix pat (drop i (stem @ pat))"
  shows "replace (stem @ pat) pat rep = stem @ rep"
  using assms
proof (induction stem)
  case Nil
  show ?case by (cases pat) simp_all
next
  case (Cons c cs)
  from Cons.prems have "\<not> prefix pat (drop 0 ((c # cs) @ pat))" by blast
  then have no: "\<not> prefix pat (c # cs @ pat)" by simp
  have "\<forall>i<length cs. \<not> prefix pat (drop i (cs @ pat))"
  proof (intro allI impI)
    fix i assume "i < length cs"
    then have "Suc i < length (c # cs)" by simp
    with Cons.prems have "\<not> prefix pat (drop (Suc i) ((c # cs) @ pat))" by blast
    then show "\<not> prefix pat (drop i (cs @ pat))" by simp
  qed
  from Cons.IH [OF this] no show ?case by simp
qed

text \<open>
  Where \<open>.tsx\<close> occurs in the path at its end only, the path that \<open>transpileFile\<close>
  computes is the one the specification names, and the cache test of claim C1 is a
  test of that file.
\<close>

lemma jsPath_of_only_extension:
  assumes "\<forall>i<length stem. \<not> prefix ''.tsx'' (drop i (stem @ ''.tsx''))"
  shows "jsPath_of (stem @ ''.tsx'') = sibling_js_spec (stem @ ''.tsx'')"
proof -
  have "endsWith (stem @ ''.tsx'') ''.tsx''"
    unfolding endsWith_def suffix_def by blast
  then have "sibling_js_spec (stem @ ''.tsx'') = stem @ ''.js''"
    by (simp add: sibling_js_spec_def)
  with replace_only_at_end [OF assms, of "''.js''"] show ?thesis
    by (simp add: jsPath_of_def)
qed

lemma transpileFile_skips_newer_sibling:
  assumes "\<forall>i<length stem. \<not> prefix ''.tsx'' (drop i (stem @ ''.tsx''))"
    and "\<not> ignoreCache"
    and "fs_stat (files w) (sibling_js_spec (stem @ ''.tsx'')) = Inr jsStat"
    and "fs_stat (files w) (stem @ ''.tsx'') = Inr tsxStat"
    and "mtimeMs jsStat > mtimeMs tsxStat"
  shows "fst (transpileFile m (stem @ ''.tsx'') program ignoreCache w) = TranspileResult_Skipped \<and>
         files (snd (transpileFile m (stem @ ''.tsx'') program ignoreCache w)) = files w"
proof -
  from assms(3) jsPath_of_only_extension [OF assms(1)]
  have "fs_stat (files w) (jsPath_of (stem @ ''.tsx'')) = Inr jsStat" by simp
  from transpileFile_skip [OF assms(2) this assms(4,5), of m program] show ?thesis by simp
qed

lemma transpileFile_success_written:
  assumes "transpileFile m tsxPath program ignoreCache w = (TranspileResult_Success, w')"
  shows "\<exists>data. map_of (files w') (jsPath_of tsxPath) = Some (File True data (now w))"
proof -
  from transpileFile_success_chain [OF assms] obtain data
    where "fs_writeFile (files w) (now w) (jsPath_of tsxPath) data = Inr (files w')"
    by (elim exE conjE)
  then have "map_of (files w') (jsPath_of tsxPath) = Some (File True data (now w))"
    by (rule writeFile_written)
  then show ?thesis ..
qed

text \<open>
  Claim C2, at an input on which the code leaves the claim. \<open>getFiles\<close> selects the file
  \<open>C.tsx\<close> in the directory \<open>a.tsx\<close>. The specification names \<open>a.tsx/C.js\<close> as the
  path of the output; \<open>transpileFile\<close> replaces the first \<open>.tsx\<close> of the path, succeeds,
  and has written to \<open>a.js/C.tsx\<close>, while no file \<open>a.tsx/C.js\<close> exists afterwards.
\<close>

theorem transpileFile_writes_into_renamed_directory:
  "getFiles (files dotted_world) ''/w/docs/data'' = Inr [''/w/docs/data/a.tsx/C.tsx''] \<and>
   sibling_js_spec ''/w/docs/data/a.tsx/C.tsx'' = ''/w/docs/data/a.tsx/C.js'' \<and>
   jsPath_of ''/w/docs/data/a.tsx/C.tsx'' = ''/w/docs/data/a.js/C.tsx'' \<and>
   fst (transpileFile demo_modules ''/w/docs/data/a.tsx/C.tsx'' [''/w/docs/data/a.tsx/C.tsx'']
          False dotted_world) = TranspileResult_Success \<and>
   map_of (files (snd (transpileFile demo_modules ''/w/docs/data/a.tsx/C.tsx''
          [''/w/docs/data/a.tsx/C.tsx''] False dotted_world))) ''/w/docs/data/a.js/C.tsx'' =
     Some (File True ''let c;'' 9) \<and>
   map_of (files (snd (transpileFile demo_modules ''/w/docs/data/a.tsx/C.tsx''
          [''/w/docs/data/a.tsx/C.tsx''] False dotted_world))) ''/w/docs/data/a.tsx/C.js'' =
     None"
  by code_simp

section \<open>Properties of main\<close>

lemma transpileFile_quiet:
  "watchers (snd (transpileFile m tsxPath program ignoreCache w)) = watchers w"
  "now (snd (transpileFile m tsxPath program ignoreCache w)) = now w"
  "filter is_Transpile (trace (snd (transpileFile m tsxPath program ignoreCache w))) =
     filter is_Transpile (trace w) @ [Transpile tsxPath]"
proof -
  let ?w0 = "w\<lparr>trace := trace w @ [Transpile tsxPath]\<rparr>"
  obtain r w' where tried:
    "transpileFile_try m tsxPath (jsPath_of tsxPath) program ignoreCache ?w0 = (r, w')"
    by (cases "transpileFile_try m tsxPath (jsPath_of tsxPath) program ignoreCache ?w0")
  from quiet_try [of m tsxPath "jsPath_of tsxPath" program ignoreCache] tried
  have "quiet_rel ?w0 w'" by (auto simp: quiet_def dest: spec [of _ ?w0])
  then have w': "watchers w' = watchers w" "now w' = now w"
    "filter is_Transpile (trace w') = filter is_Transpile (trace w) @ [Transpile tsxPath]"
    by (simp_all add: quiet_rel_def)
  from tried w' show "watchers (snd (transpileFile m tsxPath program ignoreCache w)) = watchers w"
    by (cases r) (simp_all add: transpileFile_unfold)
  from tried w' show "now (snd (transpileFile m tsxPath program ignoreCache w)) = now w"
    by (cases r) (simp_all add: transpileFile_unfold)
  from tried w'
  show "filter is_Transpile (trace (snd (transpileFile m tsxPath program ignoreCache w))) =
     filter is_Transpile (trace w) @ [Transpile tsxPath]"
    by (cases r) (simp_all add: transpileFile_unfold)
qed

lemma transpileAll_results:
  "length (fst (transpileAll m program cacheDisabled tsxFiles w)) = length tsxFiles \<and>
   set (fst (transpileAll m program cacheDisabled tsxFiles w)) \<subseteq>
     {TranspileResult_Success, TranspileResult_Skipped, TranspileResult_Failed}"
proof (induction tsxFiles arbitrary: w)
  case Nil
  show ?case by simp
next
  case (Cons tsxFile tsxFiles)
  obtain result w1 where one: "transpileFile m tsxFile program cacheDisabled w = (result, w1)"
    by (cases "transpileFile m tsxFile program cacheDisabled w")
  obtain results w2 where rest: "transpileAll m program cacheDisabled tsxFiles w1 = (results, w2)"
    by (cases "transpileAll m program cacheDisabled tsxFiles w1")
  from transpileFile_range [of m tsxFile program cacheDisabled w] one
  have "result \<in> {TranspileResult_Success, TranspileResult_Skipped, TranspileResult_Failed}"
    by simp
  with Cons.IH [of w1] one rest show ?case by simp
qed

lemma transpileAll_quiet:
  "watchers (snd (transpileAll m program cacheDisabled tsxFiles w)) = watchers w \<and>
   filter is_Transpile (trace (snd (transpileAll m program cacheDisabled tsxFiles w))) =
     filter is_Transpile (trace w) @ map Transpile tsxFiles"
proof (induction tsxFiles arbitrary: w)
  case Nil
  show ?case by simp
next
  case (Cons tsxFile tsxFiles)
  obtain result w1 where one: "transpileFile m tsxFile program cacheDisabled w = (result, w1)"
    by (cases "transpileFile m tsxFile program cacheDisabled w")
  obtain results w2 where rest: "transpileAll m program cacheDisabled tsxFiles w1 = (results, w2)"
    by (cases "transpileAll m program cacheDisabled tsxFiles w1")
  from transpileFile_quiet(1,3) [of m tsxFile program cacheDisabled w] one
  have "watchers w1 = watchers w"
    and "filter is_Transpile (trace w1) = filter is_Transpile (trace w) @ [Transpile tsxFile]"
    by simp_all
  with Cons.IH [of w1] one rest show ?case by simp
qed

lemma count_results_counts:
  assumes "set results \<subseteq>
     {TranspileResult_Success, TranspileResult_Skipped, TranspileResult_Failed}"
  shows "count_results results (successful, failed, skipped) =
     Inr (successful + count_list results TranspileResult_Success,
          failed + count_list results TranspileResult_Failed,
          skipped + count_list results TranspileResult_Skipped)"
  using assms
proof (induction results arbitrary: successful failed skipped)
  case Nil
  show ?case by simp
next
  case (Cons result results)
  from Cons.prems have "set results \<subseteq>
     {TranspileResult_Success, TranspileResult_Skipped, TranspileResult_Failed}"
    and "result = TranspileResult_Success \<or> result = TranspileResult_Skipped \<or>
         result = TranspileResult_Failed" by auto
  with Cons.IH show ?case
    using TranspileResult_distinct by auto
qed

lemma count_list_three:
  assumes "set results \<subseteq> {a, b, c}" and "a \<noteq> b" and "a \<noteq> c" and "b \<noteq> c"
  shows "count_list results a + count_list results b + count_list results c = length results"
  using assms(1)
proof (induction results)
  case Nil
  show ?case by simp
next
  case (Cons r rs)
  then show ?case using assms(2-4) by auto
qed

lemma main_batch:
  assumes pages: "getFiles (files w) (path_join (workspaceRoot m) ''docs/src/pages'') = Inr old"
    and data: "getFiles (files w) (path_join (workspaceRoot m) ''docs/data'') = Inr new"
    and batch: "transpileAll m (createProgram m (old @ new)) (disableCache args) (old @ new) w =
      (results, w1)"
  shows "main m args w =
     (if \<not> watch args
      then (if count_list results TranspileResult_Failed > 0 then Exited 1 else Returned,
            w1\<lparr>console := console w1 @
              [ConsoleLog summary [Num (count_list results TranspileResult_Success),
                 Num (count_list results TranspileResult_Skipped),
                 Num (count_list results TranspileResult_Failed)]]\<rparr>)
      else (Returned,
            w1\<lparr>console := console w1 @
              [ConsoleLog summary [Num (count_list results TranspileResult_Success),
                 Num (count_list results TranspileResult_Skipped),
                 Num (count_list results TranspileResult_Failed)],
               ConsoleLog ''\<newline>Watching for file changes...'' []],
              watchers := watchers w1 @ map (\<lambda>filePath. (filePath, 500)) (old @ new)\<rparr>))"
proof -
  from transpileAll_results [of m "createProgram m (old @ new)" "disableCache args" "old @ new" w]
    batch
  have "set results \<subseteq>
     {TranspileResult_Success, TranspileResult_Skipped, TranspileResult_Failed}" by simp
  from count_results_counts [OF this, of 0 0 0]
  have "count_results results (0, 0, 0) =
     Inr (count_list results TranspileResult_Success, count_list results TranspileResult_Failed,
          count_list results TranspileResult_Skipped)" by simp
  with pages data batch show ?thesis
    by (simp add: main_def Let_def)
qed

lemma main_rejected:
  "getFiles (files w) (path_join (workspaceRoot m) ''docs/src/pages'') = Inl e \<Longrightarrow>
     main m args w = (Rejected e, w)"
  "getFiles (files w) (path_join (workspaceRoot m) ''docs/src/pages'') = Inr old \<Longrightarrow>
   getFiles (files w) (path_join (workspaceRoot m) ''docs/data'') = Inl e \<Longrightarrow>
     main m args w = (Rejected e, w)"
  by (simp_all add: main_def Let_def)

lemma main_one_shot_batch:
  assumes "\<not> watch args"
    and pages: "getFiles (files w) (path_join (workspaceRoot m) ''docs/src/pages'') = Inr old"
    and data: "getFiles (files w) (path_join (workspaceRoot m) ''docs/data'') = Inr new"
  shows "(\<exists>results w1.
      transpileAll m (createProgram m (old @ new)) (disableCache args) (old @ new) w =
        (results, w1) \<and>
      length results = length (old @ new) \<and>
      main m args w =
        (if count_list results TranspileResult_Failed > 0 then Exited 1 else Returned,
         w1\<lparr>console := console w1 @
              [ConsoleLog summary [Num (count_list results TranspileResult_Success),
                 Num (count_list results TranspileResult_Skipped),
                 Num (count_list results TranspileResult_Failed)]]\<rparr>)) \<and>
    watchers (snd (main m args w)) = watchers w \<and>
    filter is_Transpile (trace (snd (main m args w))) =
      filter is_Transpile (trace w) @ map Transpile (old @ new)"
proof -
  obtain results w1 where batch:
    "transpileAll m (createProgram m (old @ new)) (disableCache args) (old @ new) w =
      (results, w1)"
    by (cases "transpileAll m (createProgram m (old @ new)) (disableCache args) (old @ new) w")
  from main_batch [OF pages data batch] assms(1)
  have run: "main m args w =
        (if count_list results TranspileResult_Failed > 0 then Exited 1 else Returned,
         w1\<lparr>console := console w1 @
              [ConsoleLog summary [Num (count_list results TranspileResult_Success),
                 Num (count_list results TranspileResult_Skipped),
                 Num (count_list results TranspileResult_Failed)]]\<rparr>)" by simp
  from transpileAll_results [of m "createProgram m (old @ new)" "disableCache args" "old @ new" w]
    batch
  have len: "length results = length (old @ new)" by simp
  from transpileAll_quiet [of m "createProgram m (old @ new)" "disableCache args" "old @ new" w]
    batch
  have "watchers w1 = watchers w"
    and "filter is_Transpile (trace w1) = filter is_Transpile (trace w) @ map Transpile (old @ new)"
    by simp_all
  with run have "watchers (snd (main m args w)) = watchers w"
    and "filter is_Transpile (trace (snd (main m args w))) =
      filter is_Transpile (trace w) @ map Transpile (old @ new)" by simp_all
  moreover from batch len run have "\<exists>results w1.
      transpileAll m (createProgram m (old @ new)) (disableCache args) (old @ new) w =
        (results, w1) \<and>
      length results = length (old @ new) \<and>
      main m args w =
        (if count_list results TranspileResult_Failed > 0 then Exited 1 else Returned,
         w1\<lparr>console := console w1 @
              [ConsoleLog summary [Num (count_list results TranspileResult_Success),
                 Num (count_list results TranspileResult_Skipped),
                 Num (count_list results TranspileResult_Failed)]]\<rparr>)"
    by (intro exI [of _ results] exI [of _ w1] conjI)
  ultimately show ?thesis by (intro conjI)
qed



text \<open>
  Claim C10. \<open>transpileFile\<close> returns one of the three values \<open>Success = 0\<close>,
  \<open>Skipped = 1\<close> and \<open>Failed = 2\<close>. So, when the two calls of \<open>getFiles\<close> have
  returned, the \<open>switch\<close> over the results never takes its default branch: the
  counting ends with three counters that \<open>main\<close> prints, their sum is the number of
  files found, and \<open>main\<close> is not rejected.
\<close>

theorem transpileFile_three_results:
  assumes pages: "getFiles (files w) (path_join (workspaceRoot m) ''docs/src/pages'') = Inr old"
    and data: "getFiles (files w) (path_join (workspaceRoot m) ''docs/data'') = Inr new"
  shows "fst (transpileFile m tsxPath program ignoreCache w0) \<in>
      {TranspileResult_Success, TranspileResult_Skipped, TranspileResult_Failed} \<and>
    TranspileResult_Success = 0 \<and> TranspileResult_Skipped = 1 \<and> TranspileResult_Failed = 2 \<and>
    (\<exists>successful failed skipped.
       count_results
         (fst (transpileAll m (createProgram m (old @ new)) (disableCache args) (old @ new) w))
         (0, 0, 0) = Inr (successful, failed, skipped) \<and>
       ConsoleLog summary [Num successful, Num skipped, Num failed] \<in>
         set (console (snd (main m args w))) \<and>
       successful + skipped + failed = length (old @ new)) \<and>
    (\<forall>e. fst (main m args w) \<noteq> Rejected e)"
proof -
  obtain results w1 where batch:
    "transpileAll m (createProgram m (old @ new)) (disableCache args) (old @ new) w =
      (results, w1)"
    by (cases "transpileAll m (createProgram m (old @ new)) (disableCache args) (old @ new) w")
  from transpileAll_results [of m "createProgram m (old @ new)" "disableCache args" "old @ new" w]
    batch
  have range: "set results \<subseteq>
     {TranspileResult_Success, TranspileResult_Skipped, TranspileResult_Failed}"
    and len: "length results = length (old @ new)" by simp_all
  let ?s = "count_list results TranspileResult_Success"
  let ?f = "count_list results TranspileResult_Failed"
  let ?k = "count_list results TranspileResult_Skipped"
  from count_results_counts [OF range, of 0 0 0]
  have counted: "count_results results (0, 0, 0) = Inr (?s, ?f, ?k)" by simp
  from count_list_three [OF range TranspileResult_distinct] len
  have total: "?s + ?k + ?f = length (old @ new)" by simp
  note run = main_batch [OF pages data batch]
  from run have printed: "ConsoleLog summary [Num ?s, Num ?k, Num ?f] \<in>
      set (console (snd (main m args w)))" by (cases "watch args") simp_all
  from run have never: "\<forall>e. fst (main m args w) \<noteq> Rejected e"
    by (cases "watch args") simp_all
  from counted printed total batch have "\<exists>successful failed skipped.
       count_results
         (fst (transpileAll m (createProgram m (old @ new)) (disableCache args) (old @ new) w))
         (0, 0, 0) = Inr (successful, failed, skipped) \<and>
       ConsoleLog summary [Num successful, Num skipped, Num failed] \<in>
         set (console (snd (main m args w))) \<and>
       successful + skipped + failed = length (old @ new)"
    by (intro exI [of _ ?s] exI [of _ ?f] exI [of _ ?k]) simp
  moreover have "TranspileResult_Success = 0 \<and> TranspileResult_Skipped = 1 \<and>
      TranspileResult_Failed = 2"
    by (simp add: TranspileResult_Success_def TranspileResult_Skipped_def
          TranspileResult_Failed_def)
  moreover note never transpileFile_range [of m tsxPath program ignoreCache w0]
  ultimately show ?thesis by (intro conjI) simp_all
qed

theorem transpileFile_three_results_witness:
  "getFiles (files demo_world) (path_join (workspaceRoot demo_modules) ''docs/src/pages'') =
     Inr [] \<and>
   getFiles (files demo_world) (path_join (workspaceRoot demo_modules) ''docs/data'') =
     Inr [''/w/docs/data/A.tsx'', ''/w/docs/data/B.tsx'', ''/w/docs/data/P.tsx''] \<and>
   fst (transpileAll demo_modules
         [''/w/docs/data/A.tsx'', ''/w/docs/data/B.tsx'', ''/w/docs/data/P.tsx''] True
         [''/w/docs/data/A.tsx'', ''/w/docs/data/B.tsx'', ''/w/docs/data/P.tsx'']
         demo_world) = [0, 0, 2] \<and>
   count_results [0, 0, 2] (0, 0, 0) = Inr (2, 1, 0) \<and>
   (\<forall>e. fst (main demo_modules exit_args demo_world) \<noteq> Rejected e)"
proof -
  have pages:
    "getFiles (files demo_world) (path_join (workspaceRoot demo_modules) ''docs/src/pages'') =
       Inr []"
    by code_simp
  have data:
    "getFiles (files demo_world) (path_join (workspaceRoot demo_modules) ''docs/data'') =
       Inr [''/w/docs/data/A.tsx'', ''/w/docs/data/B.tsx'', ''/w/docs/data/P.tsx'']"
    by code_simp
  have results: "fst (transpileAll demo_modules
         [''/w/docs/data/A.tsx'', ''/w/docs/data/B.tsx'', ''/w/docs/data/P.tsx''] True
         [''/w/docs/data/A.tsx'', ''/w/docs/data/B.tsx'', ''/w/docs/data/P.tsx'']
         demo_world) = [0, 0, 2]"
    by code_simp
  have counted: "count_results [0, 0, 2] (0, 0, 0) = Inr (2, 1, 0)"
    by code_simp
  from transpileFile_three_results [OF pages data, of _ _ _ _ exit_args]
  have "\<forall>e. fst (main demo_modules exit_args demo_world) \<noteq> Rejected e" by simp
  with pages data results counted show ?thesis by (intro conjI)
qed

section \<open>Properties of PickersModalDialog\<close>


end
